theory Spec2Isabelle
  imports Complex_Main "HOL-Library.Word" "HOL-Library.Log_Nat"
begin

unbundle bit_operations_syntax

section \<open>JavaScript values used by the serial polyfill\<close>

text \<open>
  A JavaScript \<open>number\<close>: a double of IEEE 754. A finite value is kept as the rational
  that it is, next to the three special values; the results of \<open>/\<close> and \<open>*\<close> are
  rounded to the nearest double, as the operators do. The remainder \<open>%\<close>, \<open>Math.ceil\<close>
  and the integer conversions are exact on doubles. The sign of zero is not modelled
  (\<open>-0\<close> and \<open>+0\<close> are one value; \<open>===\<close>, \<open>includes\<close>, \<open>indexOf\<close>, truthiness
  and the integer conversions do not tell them apart either).
\<close>

datatype number = Num rat | PosInfinity | NegInfinity | NaN

text \<open>\<open>truncate\<close> of ECMAScript: rounding towards zero.\<close>

definition js_truncate :: "rat \<Rightarrow> int" where
  "js_truncate r = (if 0 \<le> r then \<lfloor>r\<rfloor> else \<lceil>r\<rceil>)"

text \<open>
  Rounding to an integer, to the nearest one and to the even one of the two when the
  value is half way between them.
\<close>

definition round_half_even :: "rat \<Rightarrow> int" where
  "round_half_even y =
     (if y - of_int \<lfloor>y\<rfloor> < 1 / 2 then \<lfloor>y\<rfloor>
      else if 1 / 2 < y - of_int \<lfloor>y\<rfloor> then \<lfloor>y\<rfloor> + 1
      else if even \<lfloor>y\<rfloor> then \<lfloor>y\<rfloor> else \<lfloor>y\<rfloor> + 1)"

text \<open>
  The binary exponent of a positive rational \<open>a\<close>: the integer \<open>e\<close> with
  \<open>2^e \<le> a < 2^(e+1)\<close>. (\<open>bitlen n\<close> is the number of binary digits of \<open>n\<close>.)
\<close>

definition ilog2 :: "rat \<Rightarrow> int" where
  "ilog2 a = (if 1 \<le> a then bitlen \<lfloor>a\<rfloor> - 1 else - bitlen (\<lceil>1 / a\<rceil> - 1))"

text \<open>
  The double nearest to a rational (binary64, round to nearest, ties to even). Between
  \<open>2^e\<close> and \<open>2^(e+1)\<close> the doubles are the multiples of \<open>2^(e-52)\<close>; below
  \<open>2^-1022\<close> they are the multiples of \<open>2^-1074\<close>. The magnitude is rounded to the
  nearest multiple, a tie going to the even one; a magnitude that rounds to the
  multiple 0 gives 0, and one that rounds to \<open>2^1024\<close> or more gives an infinity.
\<close>

definition round_double :: "rat \<Rightarrow> number" where
  "round_double x =
     (if x = 0 then Num 0
      else (let q = power_int 2 (max (ilog2 \<bar>x\<bar> - 52) (- 1074));
                y = of_int (round_half_even (\<bar>x\<bar> / q)) * q
            in if power_int 2 1024 \<le> y
               then (if 0 < x then PosInfinity else NegInfinity)
               else Num (sgn x * y)))"

text \<open>
  The \<open>%\<close> operator (Number::remainder): the sign follows the dividend. The remainder
  of two doubles is a double, so nothing is rounded.
\<close>

fun js_rem :: "number \<Rightarrow> number \<Rightarrow> number" where
  "js_rem NaN d = NaN"
| "js_rem n NaN = NaN"
| "js_rem PosInfinity d = NaN"
| "js_rem NegInfinity d = NaN"
| "js_rem (Num n) PosInfinity = Num n"
| "js_rem (Num n) NegInfinity = Num n"
| "js_rem (Num n) (Num d) =
     (if d = 0 then NaN else Num (n - d * of_int (js_truncate (n / d))))"

text \<open>
  The \<open>/\<close> operator: the quotient, rounded to a double. A finite non-zero value
  divided by zero is an infinity.
\<close>

fun js_div :: "number \<Rightarrow> number \<Rightarrow> number" where
  "js_div NaN d = NaN"
| "js_div n NaN = NaN"
| "js_div (Num n) (Num d) =
     (if d = 0 then (if n = 0 then NaN else if 0 < n then PosInfinity else NegInfinity)
      else round_double (n / d))"
| "js_div (Num n) d = Num 0"
| "js_div PosInfinity (Num d) = (if 0 \<le> d then PosInfinity else NegInfinity)"
| "js_div NegInfinity (Num d) = (if 0 \<le> d then NegInfinity else PosInfinity)"
| "js_div n d = NaN"

text \<open>The \<open>*\<close> operator: the product, rounded to a double.\<close>

fun js_mul :: "number \<Rightarrow> number \<Rightarrow> number" where
  "js_mul NaN d = NaN"
| "js_mul n NaN = NaN"
| "js_mul (Num n) (Num d) = round_double (n * d)"
| "js_mul (Num n) PosInfinity =
     (if n = 0 then NaN else if 0 < n then PosInfinity else NegInfinity)"
| "js_mul (Num n) NegInfinity =
     (if n = 0 then NaN else if 0 < n then NegInfinity else PosInfinity)"
| "js_mul PosInfinity (Num d) =
     (if d = 0 then NaN else if 0 < d then PosInfinity else NegInfinity)"
| "js_mul NegInfinity (Num d) =
     (if d = 0 then NaN else if 0 < d then NegInfinity else PosInfinity)"
| "js_mul PosInfinity PosInfinity = PosInfinity"
| "js_mul PosInfinity NegInfinity = NegInfinity"
| "js_mul NegInfinity PosInfinity = NegInfinity"
| "js_mul NegInfinity NegInfinity = PosInfinity"

text \<open>\<open>Math.ceil\<close>.\<close>

fun Math_ceil :: "number \<Rightarrow> number" where
  "Math_ceil (Num r) = Num (of_int \<lceil>r\<rceil>)"
| "Math_ceil n = n"

text \<open>Strict equality \<open>===\<close> on numbers: \<open>NaN\<close> equals nothing, itself included.\<close>

definition strict_eq :: "number \<Rightarrow> number \<Rightarrow> bool" where
  "strict_eq a b = (a \<noteq> NaN \<and> b \<noteq> NaN \<and> a = b)"

text \<open>\<open>ToBoolean\<close> on a number: zero and \<open>NaN\<close> are falsy.\<close>

definition truthy :: "number \<Rightarrow> bool" where
  "truthy n = (n \<noteq> Num 0 \<and> n \<noteq> NaN)"

text \<open>
  \<open>Array.prototype.includes\<close> compares with SameValueZero, under which \<open>NaN\<close> equals
  itself: on this datatype it is plain equality, for numbers and for strings.
\<close>

definition js_includes :: "'a list \<Rightarrow> 'a \<Rightarrow> bool" where
  "js_includes xs x = List.member xs x"

text \<open>
  \<open>Array.prototype.indexOf\<close>: the index of the first element that is strictly equal
  to the argument, \<open>-1\<close> when there is none. The comparison is a parameter, since
  \<open>===\<close> on numbers is not equality.
\<close>

fun indexOf_from :: "('a \<Rightarrow> 'a \<Rightarrow> bool) \<Rightarrow> int \<Rightarrow> 'a list \<Rightarrow> 'a \<Rightarrow> int" where
  "indexOf_from eq k [] x = -1"
| "indexOf_from eq k (y # ys) x = (if eq y x then k else indexOf_from eq (k + 1) ys x)"

definition indexOf :: "('a \<Rightarrow> 'a \<Rightarrow> bool) \<Rightarrow> 'a list \<Rightarrow> 'a \<Rightarrow> int" where
  "indexOf eq xs x = indexOf_from eq 0 xs x"

text \<open>
  \<open>ToUint8\<close> and \<open>ToUint32\<close>, applied by \<open>DataView.setUint8\<close> and \<open>setUint32\<close>:
  non-finite values become 0, finite ones are truncated and wrapped.
\<close>

fun ToUint8 :: "number \<Rightarrow> 8 word" where
  "ToUint8 (Num r) = word_of_int (js_truncate r)"
| "ToUint8 n = 0"

fun ToUint32 :: "number \<Rightarrow> 32 word" where
  "ToUint32 (Num r) = word_of_int (js_truncate r)"
| "ToUint32 n = 0"

text \<open>An unsigned integer read from a buffer, as a number.\<close>

definition number_of_word :: "'a::len word \<Rightarrow> number" where
  "number_of_word w = Num (of_nat (unat w))"

section \<open>Descriptors, errors and optional properties\<close>

text \<open>
  The read-only descriptor tree that WebUSB hands out: a device has configurations, a
  configuration has interfaces, an interface has alternate settings, an alternate
  setting has endpoints. Arrays are lists in declared order.
\<close>

datatype USBDirection = Dir_in | Dir_out

record USBEndpoint =
  endpointNumber :: nat
  direction :: USBDirection
  packetSize :: nat

record USBAlternateInterface =
  interfaceClass :: nat
  endpoints :: "USBEndpoint list"

record USBInterface =
  interfaceNumber :: nat
  alternates :: "USBAlternateInterface list"

record USBConfiguration =
  configurationValue :: nat
  interfaces :: "USBInterface list"

type_synonym ParityType = string

type_synonym ArrayBuffer = "8 word list"

text \<open>
  Everything the two generations throw or are rejected with. Each constructor is one
  \<open>throw\<close> site of the source, with the value that the message is built from:
  \<^item> \<open>InvalidBaudRate\<close>, \<open>InvalidDataBits\<close>, \<open>InvalidStopBits\<close>, \<open>InvalidParity\<close>:
    the four \<open>RangeError\<close>s of \<open>validateOptions\<close>;
  \<^item> \<open>InterfaceNotFound\<close>, \<open>EndpointNotFound\<close>: the \<open>TypeError\<close>s of \<open>findInterface\<close>
    and \<open>findEndpoint\<close>;
  \<^item> \<open>UndefinedAccess\<close>: the \<open>TypeError\<close> of reading a property of \<open>undefined\<close> or
    \<open>null\<close>;
  \<^item> \<open>NotUint8Array\<close>: the \<open>TypeError\<close> of the first generation's \<open>write\<close>;
  \<^item> \<open>OffsetOutOfBounds\<close>: the \<open>RangeError\<close> of a \<open>DataView\<close> read past the end;
  \<^item> \<open>EnqueueRefused\<close>: the \<open>TypeError\<close> of \<open>controller.enqueue\<close>;
  \<^item> \<open>LineCodingFailed\<close>: the \<open>DOMException\<close> of \<open>setLineCoding\<close>;
  \<^item> \<open>DeviceException\<close>: whatever a call into the WebUSB device rejected with;
  \<^item> \<open>SetupError e\<close>: \<open>new Error('Error setting up device: ' + e.toString())\<close>.
\<close>

datatype error =
    InvalidBaudRate number
  | InvalidDataBits number
  | InvalidStopBits number
  | InvalidParity ParityType
  | InterfaceNotFound nat
  | EndpointNotFound nat USBDirection
  | UndefinedAccess
  | NotUint8Array
  | OffsetOutOfBounds
  | EnqueueRefused
  | LineCodingFailed
  | DeviceException string
  | SetupError error



text \<open>
  A property of an options object: not there at all, there with the value
  \<open>undefined\<close>, or there with a value. Reading it gives \<open>undefined\<close> (\<open>None\<close>) in the
  first two cases; object spread \<open>{...a, ...b}\<close> copies every property that is there,
  an \<open>undefined\<close> one included.
\<close>

datatype 'a property = Absent | Undefined | Val 'a

fun get :: "'a property \<Rightarrow> 'a option" where
  "get (Val v) = Some v"
| "get p = None"

fun spread :: "'a property \<Rightarrow> 'a property \<Rightarrow> 'a property" where
  "spread a Absent = a"
| "spread a b = b"

text \<open>The nullish coalescing operator \<open>??\<close>.\<close>

fun nullish :: "'a option \<Rightarrow> 'a \<Rightarrow> 'a" where
  "nullish None d = d"
| "nullish (Some v) d = v"

section \<open>The line-coding codec of the first generation (serial.ts)\<close>

record SerialOptions_legacy =
  baudrate :: number
  databits :: number
  stopbits :: number
  parity_legacy :: ParityType
  buffersize :: number
  rtscts :: bool
  xon :: bool
  xoff :: bool
  xany :: bool

definition kParityIndexMapping_legacy :: "ParityType list" where
  "kParityIndexMapping_legacy = [''none'', ''odd'', ''even'', ''mark'', ''space'']"

definition kStopbitsIndexMapping :: "number list" where
  "kStopbitsIndexMapping = [Num 1, Num (3 / 2), Num 2]"

text \<open>An \<open>ArrayBuffer\<close> is its list of bytes; a \<open>DataView\<close> read past the end raises.\<close>

definition getUint8 :: "ArrayBuffer \<Rightarrow> nat \<Rightarrow> error + 8 word" where
  "getUint8 view off =
     (if off < length view then Inr (view ! off)
      else Inl OffsetOutOfBounds)"

text \<open>Little-endian 32-bit access, as \<open>setUint32(off, v, true)\<close> and \<open>getUint32(off, true)\<close>.\<close>

definition bytes_of_uint32 :: "32 word \<Rightarrow> 8 word list" where
  "bytes_of_uint32 w =
     [ucast w, ucast (drop_bit 8 w), ucast (drop_bit 16 w), ucast (drop_bit 24 w)]"

definition uint32_of_bytes :: "8 word \<Rightarrow> 8 word \<Rightarrow> 8 word \<Rightarrow> 8 word \<Rightarrow> 32 word" where
  "uint32_of_bytes b0 b1 b2 b3 =
     ucast b0 OR push_bit 8 (ucast b1) OR push_bit 16 (ucast b2) OR push_bit 24 (ucast b3)"

definition getUint32 :: "ArrayBuffer \<Rightarrow> nat \<Rightarrow> error + 32 word" where
  "getUint32 view off =
     (if off + 4 \<le> length view
      then Inr (uint32_of_bytes (view ! off) (view ! (off + 1)) (view ! (off + 2))
                  (view ! (off + 3)))
      else Inl OffsetOutOfBounds)"

text \<open>
  \<open>getLineCodingStructure\<close>: a fresh 7-byte buffer, filled from \<open>this.serialOptions_\<close>.
\<close>

definition getLineCodingStructure :: "SerialOptions_legacy \<Rightarrow> ArrayBuffer" where
  "getLineCodingStructure serialOptions =
     bytes_of_uint32 (ToUint32 (baudrate serialOptions)) @
     [ToUint8 (Num (of_int (indexOf strict_eq kStopbitsIndexMapping (stopbits serialOptions)))),
      ToUint8 (Num (of_int (indexOf (=) kParityIndexMapping_legacy (parity_legacy serialOptions)))),
      ToUint8 (databits serialOptions)]"

text \<open>
  \<open>readLineCoding\<close>: \<open>options\<close> is \<open>this.serialOptions_\<close> itself, so each of the four
  assignments updates the port's options, and the other fields stay as they were. The
  result is what the function returns or throws, together with \<open>this.serialOptions_\<close> as
  the function leaves it: a read past the end of a short buffer throws after the earlier
  assignments were made.
\<close>

definition readLineCoding ::
  "SerialOptions_legacy \<Rightarrow> ArrayBuffer \<Rightarrow> (error + SerialOptions_legacy) \<times> SerialOptions_legacy" where
  "readLineCoding serialOptions buffer =
     (case getUint32 buffer 0 of Inl e \<Rightarrow> (Inl e, serialOptions) | Inr baud \<Rightarrow>
     (let options1 = serialOptions\<lparr>baudrate := number_of_word baud\<rparr> in
      case getUint8 buffer 4 of Inl e \<Rightarrow> (Inl e, options1) | Inr stop \<Rightarrow>
     (let options2 = options1\<lparr>stopbits :=
            (if unat stop < length kStopbitsIndexMapping
             then kStopbitsIndexMapping ! unat stop else Num 1)\<rparr> in
      case getUint8 buffer 5 of Inl e \<Rightarrow> (Inl e, options2) | Inr par \<Rightarrow>
     (let options3 = options2\<lparr>parity_legacy :=
            (if unat par < length kParityIndexMapping_legacy
             then kParityIndexMapping_legacy ! unat par else ''none'')\<rparr> in
      case getUint8 buffer 6 of Inl e \<Rightarrow> (Inl e, options3) | Inr bits \<Rightarrow>
     (let options4 = options3\<lparr>databits := number_of_word bits\<rparr> in
      (Inr options4, options4))))))"

section \<open>The device layer\<close>

text \<open>
  The WebUSB device is not part of the repository: the code only calls it. The model
  keeps what the code reads (\<open>opened\<close>, \<open>configuration\<close>, \<open>configurations\<close>), the
  interfaces that are claimed, a log of every call with the answer it got, and a script
  of the answers still to come, one for each call, in order. An answer is a rejection
  (the promise rejects, \<open>await\<close> throws) or a resolution with a transfer status and,
  for inbound transfers, data. When the script is used up every call resolves with
  status \<open>ok\<close>. As in WebUSB, a call other than \<open>open\<close> and \<open>close\<close> on a device
  that is not open is rejected with \<open>InvalidStateError\<close>, and \<open>selectConfiguration\<close>
  with a value that no configuration of the device has is rejected with
  \<open>NotFoundError\<close>, whatever the script says; a resolved \<open>open\<close> sets \<open>opened\<close>, a
  resolved \<open>close\<close> clears it and releases the claimed interfaces.
\<close>

datatype USBTransferStatus = Status_ok | Status_stall | Status_babble

text \<open>
  What a stream hands to the sink: a \<open>Uint8Array\<close>, another buffer source
  (\<open>ArrayBuffer\<close>, \<open>DataView\<close>, another typed array) or any other value.
\<close>

datatype chunk = Uint8Array ArrayBuffer | OtherBufferSource ArrayBuffer | NotABuffer

datatype response = Rejects string | Resolves USBTransferStatus "ArrayBuffer option"

datatype usb_call =
    Call_open
  | Call_selectConfiguration nat
  | Call_claimInterface nat
  | Call_controlTransferOut nat "32 word" nat "ArrayBuffer option"
  | Call_transferIn nat number
  | Call_transferOut nat ArrayBuffer
  | Call_close

record USBDevice =
  opened :: bool
  configuration :: "USBConfiguration option"
  configurations :: "USBConfiguration list"
  claimed :: "nat list"
  calls :: "(usb_call \<times> response) list"
  script :: "response list"

definition requires_open :: "usb_call \<Rightarrow> bool" where
  "requires_open c = (c \<noteq> Call_open \<and> c \<noteq> Call_close)"

definition unknown_configuration :: "usb_call \<Rightarrow> USBDevice \<Rightarrow> bool" where
  "unknown_configuration c d =
     (case c of
        Call_selectConfiguration n \<Rightarrow>
          find (\<lambda>config. configurationValue config = n) (configurations d) = None
      | other \<Rightarrow> False)"

definition answer :: "usb_call \<Rightarrow> USBDevice \<Rightarrow> response" where
  "answer c d =
     (if requires_open c \<and> \<not> opened d then Rejects ''InvalidStateError''
      else if unknown_configuration c d then Rejects ''NotFoundError''
      else (case script d of [] \<Rightarrow> Resolves Status_ok None | r # rs \<Rightarrow> r))"

definition device_call :: "usb_call \<Rightarrow> USBDevice \<Rightarrow> response \<times> USBDevice" where
  "device_call c d = (answer c d, d\<lparr>calls := calls d @ [(c, answer c d)], script := tl (script d)\<rparr>)"

definition device_open :: "USBDevice \<Rightarrow> (error + unit) \<times> USBDevice" where
  "device_open d =
     (case device_call Call_open d of
        (Rejects m, d') \<Rightarrow> (Inl (DeviceException m), d')
      | (Resolves st data, d') \<Rightarrow> (Inr (), d'\<lparr>opened := True\<rparr>))"

definition device_close :: "USBDevice \<Rightarrow> (error + unit) \<times> USBDevice" where
  "device_close d =
     (case device_call Call_close d of
        (Rejects m, d') \<Rightarrow> (Inl (DeviceException m), d')
      | (Resolves st data, d') \<Rightarrow> (Inr (), d'\<lparr>opened := False, claimed := []\<rparr>))"

definition selectConfiguration :: "nat \<Rightarrow> USBDevice \<Rightarrow> (error + unit) \<times> USBDevice" where
  "selectConfiguration n d =
     (case device_call (Call_selectConfiguration n) d of
        (Rejects m, d') \<Rightarrow> (Inl (DeviceException m), d')
      | (Resolves st data, d') \<Rightarrow>
          (Inr (), d'\<lparr>configuration :=
                        find (\<lambda>config. configurationValue config = n) (configurations d')\<rparr>))"

definition claimInterface :: "nat \<Rightarrow> USBDevice \<Rightarrow> (error + unit) \<times> USBDevice" where
  "claimInterface n d =
     (case device_call (Call_claimInterface n) d of
        (Rejects m, d') \<Rightarrow> (Inl (DeviceException m), d')
      | (Resolves st data, d') \<Rightarrow> (Inr (), d'\<lparr>claimed := n # claimed d'\<rparr>))"

text \<open>
  \<open>controlTransferOut({requestType: 'class', recipient: 'interface', request, value,
  index}, data)\<close>; the result carries the status.
\<close>

definition controlTransferOut ::
  "nat \<Rightarrow> 32 word \<Rightarrow> nat \<Rightarrow> ArrayBuffer option \<Rightarrow> USBDevice \<Rightarrow> (error + USBTransferStatus) \<times> USBDevice" where
  "controlTransferOut request val index data d =
     (case device_call (Call_controlTransferOut request val index data) d of
        (Rejects m, d') \<Rightarrow> (Inl (DeviceException m), d')
      | (Resolves st received, d') \<Rightarrow> (Inr st, d'))"

definition transferIn ::
  "nat \<Rightarrow> number \<Rightarrow> USBDevice \<Rightarrow> (error + USBTransferStatus \<times> ArrayBuffer option) \<times> USBDevice" where
  "transferIn endpoint len d =
     (case device_call (Call_transferIn endpoint len) d of
        (Rejects m, d') \<Rightarrow> (Inl (DeviceException m), d')
      | (Resolves st received, d') \<Rightarrow> (Inr (st, received), d'))"

text \<open>
  \<open>transferOut\<close> takes a buffer source. Any other value fails the conversion of the
  argument: the promise rejects with a \<open>TypeError\<close> and nothing reaches the device.
\<close>

definition transferOut ::
  "nat \<Rightarrow> chunk \<Rightarrow> USBDevice \<Rightarrow> (error + USBTransferStatus) \<times> USBDevice" where
  "transferOut endpoint data d =
     (case data of
        NotABuffer \<Rightarrow> (Inl (DeviceException ''TypeError''), d)
      | Uint8Array bytes \<Rightarrow>
          (case device_call (Call_transferOut endpoint bytes) d of
             (Rejects m, d') \<Rightarrow> (Inl (DeviceException m), d')
           | (Resolves st received, d') \<Rightarrow> (Inr st, d'))
      | OtherBufferSource bytes \<Rightarrow>
          (case device_call (Call_transferOut endpoint bytes) d of
             (Rejects m, d') \<Rightarrow> (Inl (DeviceException m), d')
           | (Resolves st received, d') \<Rightarrow> (Inr st, d')))"

section \<open>Stream controllers\<close>

text \<open>
  The controllers belong to the Streams standard, not to the repository. The model
  keeps the state of the stream, the chunks that were enqueued, and the value that the
  \<open>desiredSize\<close> getter returns when \<open>pull\<close> reads it (\<open>None\<close> is \<open>null\<close>).
  \<open>ReadableByteStreamController.enqueue\<close> throws a \<open>TypeError\<close> on an empty chunk, after
  a close request, and when the stream is not readable; \<open>error\<close> does nothing unless
  the stream is still readable (writable).
\<close>

datatype stream_error =
    UsbError USBTransferStatus
  | StatusText USBTransferStatus
  | ErrorText error
  | NoEndpoint USBDirection

datatype stream_state = Active | Closed | Errored stream_error

record ReadableByteStreamController =
  readable_state :: stream_state
  closeRequested :: bool
  desiredSize :: "number option"
  enqueued :: "ArrayBuffer list"

definition controller_error :: "stream_error \<Rightarrow> ReadableByteStreamController \<Rightarrow> ReadableByteStreamController" where
  "controller_error e c =
     (if readable_state c = Active then c\<lparr>readable_state := Errored e, desiredSize := None\<rparr>
      else c)"

definition controller_enqueue ::
  "ArrayBuffer \<Rightarrow> ReadableByteStreamController \<Rightarrow> error + ReadableByteStreamController" where
  "controller_enqueue chunk c =
     (if length chunk = 0 then Inl EnqueueRefused
      else if closeRequested c then Inl EnqueueRefused
      else if readable_state c \<noteq> Active then Inl EnqueueRefused
      else Inr (c\<lparr>enqueued := enqueued c @ [chunk]\<rparr>))"

record WritableStreamDefaultController =
  writable_state :: stream_state

definition sink_error :: "stream_error \<Rightarrow> WritableStreamDefaultController \<Rightarrow> WritableStreamDefaultController" where
  "sink_error e c =
     (if writable_state c = Active then c\<lparr>writable_state := Errored e\<rparr> else c)"

section \<open>The interface locator\<close>

text \<open>
  \<open>findInterface\<close> looks at \<open>device.configurations[0]\<close> and, for each interface in
  turn, at \<open>iface.alternates[0]\<close>. Indexing an empty array gives \<open>undefined\<close>, and the
  property read that follows throws.
\<close>

fun findInterface_loop :: "USBInterface list \<Rightarrow> nat \<Rightarrow> error + USBInterface" where
  "findInterface_loop [] classCode = Inl (InterfaceNotFound classCode)"
| "findInterface_loop (iface # rest) classCode =
     (case alternates iface of
        [] \<Rightarrow> Inl UndefinedAccess
      | alternate # others \<Rightarrow>
          if interfaceClass alternate = classCode then Inr iface
          else findInterface_loop rest classCode)"

definition findInterface :: "USBDevice \<Rightarrow> nat \<Rightarrow> error + USBInterface" where
  "findInterface device classCode =
     (case configurations device of
        [] \<Rightarrow> Inl UndefinedAccess
      | config # others \<Rightarrow> findInterface_loop (interfaces config) classCode)"

fun findEndpoint_loop :: "nat \<Rightarrow> USBEndpoint list \<Rightarrow> USBDirection \<Rightarrow> error + USBEndpoint" where
  "findEndpoint_loop n [] dir = Inl (EndpointNotFound n dir)"
| "findEndpoint_loop n (endpoint # rest) dir =
     (if direction endpoint = dir then Inr endpoint else findEndpoint_loop n rest dir)"

definition findEndpoint :: "USBInterface \<Rightarrow> USBDirection \<Rightarrow> error + USBEndpoint" where
  "findEndpoint iface dir =
     (case alternates iface of
        [] \<Rightarrow> Inl UndefinedAccess
      | alternate # others \<Rightarrow> findEndpoint_loop (interfaceNumber iface) (endpoints alternate) dir)"

text \<open>
  The first generation walks the active configuration with \<open>forEach\<close>, over every
  alternate setting of every interface, and assigns on each match: the value that is
  left is the last match, \<open>undefined\<close> (\<open>None\<close>) when there is none.
\<close>

definition getInterfaceWithClass :: "USBDevice \<Rightarrow> nat \<Rightarrow> error + USBInterface option" where
  "getInterfaceWithClass device classNumber =
     (case configuration device of
        None \<Rightarrow> Inl UndefinedAccess
      | Some active \<Rightarrow>
          Inr (fold (\<lambda>deviceInterface interfaceWithClass.
                  fold (\<lambda>alternate found.
                          if interfaceClass alternate = classNumber then Some deviceInterface
                          else found)
                       (alternates deviceInterface) interfaceWithClass)
                (interfaces active) None))"

definition getDirectionEndpoint :: "USBInterface \<Rightarrow> USBDirection \<Rightarrow> USBEndpoint option" where
  "getDirectionEndpoint transferInterface dir =
     fold (\<lambda>alternate correctEndpoint.
             fold (\<lambda>endpoint found. if direction endpoint = dir then Some endpoint else found)
                  (endpoints alternate) correctEndpoint)
          (alternates transferInterface) None"

section \<open>The stream adapters\<close>

text \<open>
  The transfer size that \<open>pull\<close> computes. \<open>if (controller.desiredSize)\<close> tests for
  truthiness: \<open>null\<close>, \<open>0\<close> and \<open>NaN\<close> take the \<open>else\<close> branch.
\<close>

definition chunkSize :: "number option \<Rightarrow> nat \<Rightarrow> number" where
  "chunkSize desired packet =
     (case desired of
        None \<Rightarrow> Num (of_nat packet)
      | Some wanted \<Rightarrow>
          if truthy wanted
          then js_mul (Math_ceil (js_div wanted (Num (of_nat packet)))) (Num (of_nat packet))
          else Num (of_nat packet))"

text \<open>
  \<open>UsbEndpointUnderlyingSource.pull\<close>, the body of the asynchronous function it starts.
  The state is the device, the controller and whatever the \<open>onError\<close> callback acts on.
  After a status other than \<open>ok\<close> the function goes on to the data; an exception of
  \<open>enqueue\<close> is raised inside the \<open>try\<close> and lands in the \<open>catch\<close>.
\<close>

definition pull ::
  "('s \<Rightarrow> 's) \<Rightarrow> USBEndpoint \<Rightarrow> USBDevice \<times> ReadableByteStreamController \<times> 's
     \<Rightarrow> USBDevice \<times> ReadableByteStreamController \<times> 's" where
  "pull onError endpoint state =
     (case state of (device, controller, env) \<Rightarrow>
        (case transferIn (endpointNumber endpoint)
                (chunkSize (desiredSize controller) (packetSize endpoint)) device of
           (Inl thrown, device') \<Rightarrow>
             (device', controller_error (ErrorText thrown) controller, onError env)
         | (Inr (status, data), device') \<Rightarrow>
             (let (controller1, env1) =
                    (if status \<noteq> Status_ok
                     then (controller_error (UsbError status) controller, onError env)
                     else (controller, env))
              in (case data of
                    None \<Rightarrow> (device', controller1, env1)
                  | Some bytes \<Rightarrow>
                      (case controller_enqueue bytes controller1 of
                         Inr controller2 \<Rightarrow> (device', controller2, env1)
                       | Inl thrown \<Rightarrow>
                           (device', controller_error (ErrorText thrown) controller1,
                            onError env1))))))"

text \<open>
  \<open>UsbEndpointUnderlyingSink.write\<close>: the chunk goes to \<open>transferOut\<close> as it is.
  Every exception is caught, so the function itself always resolves.
\<close>

definition sink_write ::
  "('s \<Rightarrow> 's) \<Rightarrow> USBEndpoint \<Rightarrow> chunk \<Rightarrow> USBDevice \<times> WritableStreamDefaultController \<times> 's
     \<Rightarrow> (error + unit) \<times> USBDevice \<times> WritableStreamDefaultController \<times> 's" where
  "sink_write onError endpoint data state =
     (case state of (device, controller, env) \<Rightarrow>
        (case transferOut (endpointNumber endpoint) data device of
           (Inl thrown, device') \<Rightarrow>
             (Inr (), device', sink_error (ErrorText thrown) controller, onError env)
         | (Inr status, device') \<Rightarrow>
             (if status \<noteq> Status_ok
              then (Inr (), device', sink_error (StatusText status) controller, onError env)
              else (Inr (), device', controller, env))))"

text \<open>
  \<open>SerialPort.write\<close> of the first generation: the endpoint is looked up first, then
  the chunk is tested with \<open>instanceof Uint8Array\<close>.
\<close>

definition write_legacy ::
  "USBInterface \<Rightarrow> chunk \<Rightarrow> USBDevice \<times> WritableStreamDefaultController
     \<Rightarrow> (error + unit) \<times> USBDevice \<times> WritableStreamDefaultController" where
  "write_legacy transferInterface data state =
     (case state of (device, controller) \<Rightarrow>
        (case getDirectionEndpoint transferInterface Dir_out of
           None \<Rightarrow> (Inr (), device, sink_error (NoEndpoint Dir_out) controller)
         | Some endpoint \<Rightarrow>
             (case data of
                Uint8Array bytes \<Rightarrow>
                  (case transferOut (endpointNumber endpoint) data device of
                     (Inl thrown, device') \<Rightarrow>
                       (Inr (), device', sink_error (ErrorText thrown) controller)
                   | (Inr status, device') \<Rightarrow> (Inr (), device', controller))
              | OtherBufferSource bytes \<Rightarrow> (Inl NotUint8Array, device, controller)
              | NotABuffer \<Rightarrow> (Inl NotUint8Array, device, controller))))"

section \<open>The serial port\<close>

record SerialOptions =
  baudRate :: number
  dataBits :: "number property"
  stopBits :: "number property"
  parity :: "ParityType property"
  bufferSize :: "number property"
  flowControl :: "string property"

record SerialOutputSignals =
  dataTerminalReady :: "bool property"
  requestToSend :: "bool property"
  break :: "bool property"

text \<open>
  The fields of the class. \<open>serialOptions_\<close> is not assigned by the constructor, so
  it is \<open>undefined\<close> (\<open>None\<close>) until \<open>open\<close> or \<open>reconfigure\<close>; the two streams are
  kept only as far as they exist or not. Two interfaces are the same object exactly
  when they are the same element of the descriptor tree, which the model reads as
  equality of the descriptors.
\<close>

record SerialPort =
  this_device :: USBDevice
  this_controlInterface :: USBInterface
  this_transferInterface :: USBInterface
  this_inEndpoint :: USBEndpoint
  this_outEndpoint :: USBEndpoint
  this_serialOptions :: "SerialOptions option"
  this_readable :: bool
  this_writable :: bool
  this_outputSignals :: SerialOutputSignals

definition kSetLineCoding :: nat where "kSetLineCoding = 0x20"
definition kSetControlLineState :: nat where "kSetControlLineState = 0x22"
definition kSendBreak :: nat where "kSendBreak = 0x23"

definition kDefaultDataBits :: number where "kDefaultDataBits = Num 8"
definition kDefaultParity :: ParityType where "kDefaultParity = ''none''"
definition kDefaultStopBits :: number where "kDefaultStopBits = Num 1"

definition kAcceptableDataBits :: "number list" where
  "kAcceptableDataBits = [Num 16, Num 8, Num 7, Num 6, Num 5]"
definition kAcceptableStopBits :: "number list" where
  "kAcceptableStopBits = [Num 1, Num 2]"
definition kAcceptableParity :: "ParityType list" where
  "kAcceptableParity = [''none'', ''even'', ''odd'']"

definition kParityIndexMapping :: "ParityType list" where
  "kParityIndexMapping = [''none'', ''odd'', ''even'']"
definition kStopBitsIndexMapping :: "number list" where
  "kStopBitsIndexMapping = [Num 1, Num (3 / 2), Num 2]"

text \<open>
  An asynchronous member function of the port is a function from the port to a result
  and the port as the call leaves it. \<open>await m k\<close> runs \<open>m\<close> and goes on with \<open>k\<close>; an exception of
  \<open>m\<close> ends the sequence, as a rejected promise does at an \<open>await\<close>.
\<close>

type_synonym 'a async = "SerialPort \<Rightarrow> (error + 'a) \<times> SerialPort"

definition await :: "'a async \<Rightarrow> ('a \<Rightarrow> 'b async) \<Rightarrow> 'b async" where
  "await m k this =
     (case m this of (Inl e, this') \<Rightarrow> (Inl e, this') | (Inr a, this') \<Rightarrow> k a this')"

definition try_catch :: "'a async \<Rightarrow> (error \<Rightarrow> 'a async) \<Rightarrow> 'a async" where
  "try_catch m handler this =
     (case m this of (Inl e, this') \<Rightarrow> handler e this' | (Inr a, this') \<Rightarrow> (Inr a, this'))"

definition on_device :: "(USBDevice \<Rightarrow> (error + 'a) \<times> USBDevice) \<Rightarrow> 'a async" where
  "on_device f this = (case f (this_device this) of (r, d) \<Rightarrow> (r, this\<lparr>this_device := d\<rparr>))"

definition skip :: "unit async" where
  "skip this = (Inr (), this)"

definition throw :: "error \<Rightarrow> 'a async" where
  "throw e this = (Inl e, this)"

subsection \<open>Validation\<close>

definition isValidBaudRate :: "number \<Rightarrow> bool" where
  "isValidBaudRate b = strict_eq (js_rem b (Num 1)) (Num 0)"

definition isValidDataBits :: "number option \<Rightarrow> bool" where
  "isValidDataBits b = (case b of None \<Rightarrow> True | Some v \<Rightarrow> js_includes kAcceptableDataBits v)"

definition isValidStopBits :: "number option \<Rightarrow> bool" where
  "isValidStopBits b = (case b of None \<Rightarrow> True | Some v \<Rightarrow> js_includes kAcceptableStopBits v)"

definition isValidParity :: "ParityType option \<Rightarrow> bool" where
  "isValidParity p = (case p of None \<Rightarrow> True | Some v \<Rightarrow> js_includes kAcceptableParity v)"

text \<open>
  \<open>validateOptions\<close> reads \<open>this.serialOptions_\<close>. On the error paths the value that
  failed the test is there (an absent one passes), so \<open>the\<close> is applied to \<open>Some\<close> only.
\<close>

definition validateOptions :: "SerialOptions option \<Rightarrow> error + unit" where
  "validateOptions serialOptions =
     (case serialOptions of
        None \<Rightarrow> Inl UndefinedAccess
      | Some options \<Rightarrow>
          if \<not> isValidBaudRate (baudRate options)
          then Inl (InvalidBaudRate (baudRate options))
          else if \<not> isValidDataBits (get (dataBits options))
          then Inl (InvalidDataBits (the (get (dataBits options))))
          else if \<not> isValidStopBits (get (stopBits options))
          then Inl (InvalidStopBits (the (get (stopBits options))))
          else if \<not> isValidParity (get (parity options))
          then Inl (InvalidParity (the (get (parity options))))
          else Inr ())"

subsection \<open>Line coding and control signals\<close>

text \<open>The 7-byte buffer that \<open>setLineCoding\<close> fills.\<close>

definition lineCoding :: "SerialOptions \<Rightarrow> ArrayBuffer" where
  "lineCoding options =
     bytes_of_uint32 (ToUint32 (baudRate options)) @
     [ToUint8 (Num (of_int (indexOf strict_eq kStopBitsIndexMapping
                              (nullish (get (stopBits options)) kDefaultStopBits)))),
      ToUint8 (Num (of_int (indexOf (=) kParityIndexMapping
                              (nullish (get (parity options)) kDefaultParity)))),
      ToUint8 (nullish (get (dataBits options)) kDefaultDataBits)]"

definition setLineCoding :: "unit async" where
  "setLineCoding this =
     (case this_serialOptions this of
        None \<Rightarrow> (Inl UndefinedAccess, this)
      | Some options \<Rightarrow>
          await (on_device (controlTransferOut kSetLineCoding 0
                              (interfaceNumber (this_controlInterface this))
                              (Some (lineCoding options))))
            (\<lambda>status. if status \<noteq> Status_ok then throw LineCodingFailed else skip)
            this)"

definition is_true :: "bool property \<Rightarrow> bool" where
  "is_true p = (p = Val True)"

definition merge_signals :: "SerialOutputSignals \<Rightarrow> SerialOutputSignals \<Rightarrow> SerialOutputSignals" where
  "merge_signals old signals =
     \<lparr>dataTerminalReady = spread (dataTerminalReady old) (dataTerminalReady signals),
      requestToSend = spread (requestToSend old) (requestToSend signals),
      break = spread (break old) (break signals)\<rparr>"

definition control_line_state :: "SerialOutputSignals \<Rightarrow> 32 word" where
  "control_line_state signals =
     (if is_true (dataTerminalReady signals) then push_bit 0 1 else 0) OR
     (if is_true (requestToSend signals) then push_bit 1 1 else 0)"

definition setSignals :: "SerialOutputSignals \<Rightarrow> unit async" where
  "setSignals signals this0 =
     (let this = this0\<lparr>this_outputSignals := merge_signals (this_outputSignals this0) signals\<rparr> in
      await
        (if get (dataTerminalReady signals) \<noteq> None \<or> get (requestToSend signals) \<noteq> None
         then await (on_device (controlTransferOut kSetControlLineState
                                  (control_line_state (this_outputSignals this))
                                  (interfaceNumber (this_controlInterface this)) None))
                (\<lambda>status. skip)
         else skip)
        (\<lambda>u. if get (break signals) \<noteq> None
             then await (on_device (controlTransferOut kSendBreak
                                      (if is_true (break (this_outputSignals this)) then 0xFFFF else 0)
                                      (interfaceNumber (this_controlInterface this)) None))
                    (\<lambda>status. skip)
             else skip)
        this)"

subsection \<open>Opening and reconfiguring\<close>



text \<open>
  \<open>open\<close>, first the body of the function: the options are stored and validated
  outside the \<open>try\<close>; the device sequence runs inside it. The \<open>catch\<close> clause awaits
  \<open>close\<close> when the device reports that it is open, and then throws the wrapped error;
  an exception of that \<open>close\<close> leaves the clause before the \<open>throw\<close> is reached.
  \<open>SerialPort_open\<close> is the call: \<open>open\<close> is declared \<open>async\<close>.
\<close>

definition open_sequence :: "unit async" where
  "open_sequence =
     await (on_device device_open) (\<lambda>u.
     await (\<lambda>this. if configuration (this_device this) = None
                   then on_device (selectConfiguration 1) this else skip this) (\<lambda>u.
     await (\<lambda>this. on_device (claimInterface (interfaceNumber (this_controlInterface this)))
                     this) (\<lambda>u.
     await (\<lambda>this. if this_controlInterface this \<noteq> this_transferInterface this
                   then on_device (claimInterface (interfaceNumber (this_transferInterface this)))
                          this
                   else skip this) (\<lambda>u.
     await setLineCoding (\<lambda>u.
     setSignals \<lparr>dataTerminalReady = Val True, requestToSend = Absent, break = Absent\<rparr>)))))"

definition open_cleanup :: "error \<Rightarrow> unit async" where
  "open_cleanup thrown =
     await (\<lambda>this. if opened (this_device this) then on_device device_close this
                   else skip this)
       (\<lambda>u. throw (SetupError thrown))"

definition open_port :: "SerialOptions \<Rightarrow> unit async" where
  "open_port options this0 =
     (let this = this0\<lparr>this_serialOptions := Some options\<rparr> in
      case validateOptions (this_serialOptions this) of
        Inl e \<Rightarrow> (Inl e, this)
      | Inr u \<Rightarrow> try_catch open_sequence open_cleanup this)"




text \<open>
  The constructor, with the two interface classes as they are after the polyfill
  options were merged with their defaults (2 and 10).
\<close>

definition SerialPort_constructor :: "USBDevice \<Rightarrow> nat \<Rightarrow> nat \<Rightarrow> error + SerialPort" where
  "SerialPort_constructor device usbControlInterfaceClass usbTransferInterfaceClass =
     (case findInterface device usbControlInterfaceClass of Inl e \<Rightarrow> Inl e | Inr control \<Rightarrow>
     (case findInterface device usbTransferInterfaceClass of Inl e \<Rightarrow> Inl e | Inr transfer \<Rightarrow>
     (case findEndpoint transfer Dir_in of Inl e \<Rightarrow> Inl e | Inr inEndpoint \<Rightarrow>
     (case findEndpoint transfer Dir_out of Inl e \<Rightarrow> Inl e | Inr outEndpoint \<Rightarrow>
        Inr \<lparr>this_device = device,
             this_controlInterface = control,
             this_transferInterface = transfer,
             this_inEndpoint = inEndpoint,
             this_outEndpoint = outEndpoint,
             this_serialOptions = None,
             this_readable = False,
             this_writable = False,
             this_outputSignals =
               \<lparr>dataTerminalReady = Val False, requestToSend = Val False,
                break = Val False\<rparr>\<rparr>))))"

section \<open>The statements of the specification, in its own words\<close>


definition is_integer :: "number \<Rightarrow> bool" where
  "is_integer n = (case n of Num r \<Rightarrow> of_int \<lfloor>r\<rfloor> = r | other \<Rightarrow> False)"



text \<open>A fully specified options record: the four line parameters are all there.\<close>

definition full_options :: "number \<Rightarrow> number \<Rightarrow> number \<Rightarrow> ParityType \<Rightarrow> SerialOptions" where
  "full_options baud dbits sbits par =
     \<lparr>baudRate = baud, dataBits = Val dbits, stopBits = Val sbits, parity = Val par,
      bufferSize = Absent, flowControl = Absent\<rparr>"

section \<open>Vocabulary of the properties\<close>

text \<open>The port after one more call was answered: the call is in the log, the script moved on.\<close>

definition logged :: "usb_call \<Rightarrow> response \<Rightarrow> SerialPort \<Rightarrow> SerialPort" where
  "logged c r this =
     this\<lparr>this_device := (this_device this)\<lparr>calls := calls (this_device this) @ [(c, r)],
                                              script := tl (script (this_device this))\<rparr>\<rparr>"

text \<open>The device after one more call was answered.\<close>

definition device_logged :: "usb_call \<Rightarrow> response \<Rightarrow> USBDevice \<Rightarrow> USBDevice" where
  "device_logged c r d = d\<lparr>calls := calls d @ [(c, r)], script := tl (script d)\<rparr>"

text \<open>The control transfers with a given request code among some entries of the log.\<close>

fun request_code :: "usb_call \<Rightarrow> nat option" where
  "request_code (Call_controlTransferOut request val index data) = Some request"
| "request_code c = None"

definition requests_with :: "nat \<Rightarrow> (usb_call \<times> response) list \<Rightarrow> usb_call list" where
  "requests_with code entries = filter (\<lambda>c. request_code c = Some code) (map fst entries)"

text \<open>A transfer failed: the call was rejected, or it resolved with a status other than ok.\<close>

definition transfer_failed :: "response \<Rightarrow> bool" where
  "transfer_failed r =
     (case r of Rejects m \<Rightarrow> True | Resolves status data \<Rightarrow> status \<noteq> Status_ok)"

text \<open>
  An entry of the log that is a failure for the sequence of \<open>open\<close>: the call was
  rejected, or it is the line-coding transfer and resolved with a status other than ok.
  (The sequence tests no other status.)
\<close>

definition failed_step :: "usb_call \<times> response \<Rightarrow> bool" where
  "failed_step entry =
     (case snd entry of
        Rejects m \<Rightarrow> True
      | Resolves status data \<Rightarrow>
          request_code (fst entry) = Some kSetLineCoding \<and> status \<noteq> Status_ok)"

text \<open>The exception that a failed entry makes the sequence throw.\<close>

definition error_of :: "usb_call \<times> response \<Rightarrow> error" where
  "error_of entry =
     (case snd entry of
        Rejects m \<Rightarrow> DeviceException m
      | Resolves status data \<Rightarrow> LineCodingFailed)"

definition is_Uint8Array :: "chunk \<Rightarrow> bool" where
  "is_Uint8Array c = (case c of Uint8Array bytes \<Rightarrow> True | other \<Rightarrow> False)"

text \<open>A device that is not open holds no claimed interface, as WebUSB keeps it.\<close>

definition no_stale_claims :: "USBDevice \<Rightarrow> bool" where
  "no_stale_claims d = (\<not> opened d \<longrightarrow> claimed d = [])"

text \<open>
  A member function, run on a port that has its options, accounts for its failures: it
  keeps the options, it only adds to the log, it leaves an open device open; when it
  returns, none of the entries it added is a failure, and when it throws, the last
  entry it added is a failure, the only one, and it throws the exception of that entry.
\<close>

definition accounts :: "'a async \<Rightarrow> bool" where
  "accounts m =
     (\<forall>s. this_serialOptions s \<noteq> None \<longrightarrow>
        this_serialOptions (snd (m s)) \<noteq> None \<and>
        (opened (this_device s) \<longrightarrow> opened (this_device (snd (m s)))) \<and>
        (\<exists>new. calls (this_device (snd (m s))) = calls (this_device s) @ new \<and>
           (case fst (m s) of
              Inr a \<Rightarrow> \<not> list_ex failed_step new
            | Inl e \<Rightarrow> new \<noteq> [] \<and> failed_step (last new) \<and>
                       \<not> list_ex failed_step (butlast new) \<and> e = error_of (last new))))"

section \<open>Sample inputs\<close>

definition options_9600 :: SerialOptions_legacy where
  "options_9600 =
     \<lparr>baudrate = Num 9600, databits = Num 8, stopbits = Num 1, parity_legacy = ''none'',
      buffersize = Num 255, rtscts = False, xon = False, xoff = False, xany = False\<rparr>"

definition options_baud_2_32 :: SerialOptions_legacy where
  "options_baud_2_32 =
     \<lparr>baudrate = Num 4294967296, databits = Num 8, stopbits = Num 1, parity_legacy = ''none'',
      buffersize = Num 255, rtscts = False, xon = False, xoff = False, xany = False\<rparr>"

definition buffer_out_of_table :: ArrayBuffer where
  "buffer_out_of_table = [0x80, 0x25, 0, 0, 7, 9, 8]"

text \<open>
  A CDC-ACM device with one control interface (class 2) and one data interface (class
  10) with a bulk endpoint in each direction, and the port that the constructor makes
  of it.
\<close>

definition endpoint_in :: USBEndpoint where
  "endpoint_in = \<lparr>endpointNumber = 1, direction = Dir_in, packetSize = 64\<rparr>"

definition endpoint_out :: USBEndpoint where
  "endpoint_out = \<lparr>endpointNumber = 2, direction = Dir_out, packetSize = 64\<rparr>"

definition control_interface :: USBInterface where
  "control_interface =
     \<lparr>interfaceNumber = 0, alternates = [\<lparr>interfaceClass = 2, endpoints = []\<rparr>]\<rparr>"

definition data_interface :: USBInterface where
  "data_interface =
     \<lparr>interfaceNumber = 1,
      alternates = [\<lparr>interfaceClass = 10, endpoints = [endpoint_in, endpoint_out]\<rparr>]\<rparr>"

definition cdc_configuration :: USBConfiguration where
  "cdc_configuration = \<lparr>configurationValue = 1, interfaces = [control_interface, data_interface]\<rparr>"

definition cdc_device :: "response list \<Rightarrow> USBDevice" where
  "cdc_device answers =
     \<lparr>opened = False, configuration = None, configurations = [cdc_configuration],
      claimed = [], calls = [], script = answers\<rparr>"

definition open_device :: "response list \<Rightarrow> USBDevice" where
  "open_device answers =
     \<lparr>opened = True, configuration = Some cdc_configuration,
      configurations = [cdc_configuration], claimed = [0, 1], calls = [], script = answers\<rparr>"

definition signals_all_false :: SerialOutputSignals where
  "signals_all_false =
     \<lparr>dataTerminalReady = Val False, requestToSend = Val False, break = Val False\<rparr>"

definition port_of :: "USBDevice \<Rightarrow> SerialPort" where
  "port_of d =
     \<lparr>this_device = d,
      this_controlInterface = control_interface,
      this_transferInterface = data_interface,
      this_inEndpoint = endpoint_in,
      this_outEndpoint = endpoint_out,
      this_serialOptions = None,
      this_readable = False,
      this_writable = False,
      this_outputSignals = signals_all_false\<rparr>"

text \<open>A composite device with two serial functions: two control and two data interfaces.\<close>

definition second_control_interface :: USBInterface where
  "second_control_interface =
     \<lparr>interfaceNumber = 2, alternates = [\<lparr>interfaceClass = 2, endpoints = []\<rparr>]\<rparr>"

definition second_data_interface :: USBInterface where
  "second_data_interface =
     \<lparr>interfaceNumber = 3,
      alternates = [\<lparr>interfaceClass = 10, endpoints = [endpoint_in, endpoint_out]\<rparr>]\<rparr>"

definition dual_configuration :: USBConfiguration where
  "dual_configuration =
     \<lparr>configurationValue = 1,
      interfaces = [control_interface, data_interface,
                    second_control_interface, second_data_interface]\<rparr>"

definition dual_device :: USBDevice where
  "dual_device =
     \<lparr>opened = False, configuration = Some dual_configuration,
      configurations = [dual_configuration], claimed = [], calls = [], script = []\<rparr>"

definition options_9600_8N1 :: SerialOptions where
  "options_9600_8N1 = full_options (Num 9600) (Num 8) (Num 1) ''none''"

definition options_baud_only :: SerialOptions where
  "options_baud_only =
     \<lparr>baudRate = Num 9600, dataBits = Absent, stopBits = Undefined, parity = Absent,
      bufferSize = Absent, flowControl = Absent\<rparr>"

definition readable_controller :: "number option \<Rightarrow> ReadableByteStreamController" where
  "readable_controller wanted =
     \<lparr>readable_state = Active, closeRequested = False, desiredSize = wanted, enqueued = []\<rparr>"

definition writable_controller :: WritableStreamDefaultController where
  "writable_controller = \<lparr>writable_state = Active\<rparr>"

section \<open>Properties of the arithmetic on doubles\<close>

lemma round_half_even_of_int: "round_half_even (of_int k) = k"
  by (simp add: round_half_even_def)

lemma round_half_even_le: "y \<le> of_int k \<Longrightarrow> round_half_even y \<le> k"
proof -
  assume y: "y \<le> of_int k"
  have "\<lfloor>y\<rfloor> \<le> \<lfloor>of_int k :: rat\<rfloor>" using y by (rule floor_mono)
  then have fl: "\<lfloor>y\<rfloor> \<le> k" by simp
  show ?thesis
  proof (cases "\<lfloor>y\<rfloor> = k")
    case True
    then have "y = of_int k" using y of_int_floor_le[of y] by simp
    then show ?thesis by (simp add: round_half_even_of_int)
  next
    case False
    then have "\<lfloor>y\<rfloor> + 1 \<le> k" using fl by simp
    then show ?thesis by (auto simp: round_half_even_def)
  qed
qed

lemma round_half_even_ge: "of_int k + 1 / 2 < y \<Longrightarrow> k + 1 \<le> round_half_even y"
proof -
  assume y: "of_int k + 1 / 2 < y"
  then have "of_int k \<le> y" by simp
  then have fl: "k \<le> \<lfloor>y\<rfloor>" by (simp add: le_floor_iff)
  show ?thesis
  proof (cases "\<lfloor>y\<rfloor> = k")
    case True
    then have "1 / 2 < y - of_int \<lfloor>y\<rfloor>" using y by simp
    then show ?thesis using True by (simp add: round_half_even_def)
  next
    case False
    then have "k + 1 \<le> \<lfloor>y\<rfloor>" using fl by simp
    then show ?thesis by (auto simp: round_half_even_def)
  qed
qed

lemma ilog2_lower:
  assumes "0 < a"
  shows "power_int 2 (ilog2 a) \<le> a"
proof (cases "1 \<le> a")
  case True
  then have pos: "0 < \<lfloor>a\<rfloor>" by simp
  then have b: "1 \<le> bitlen \<lfloor>a\<rfloor>" using bitlen_eq_zero_iff[of "\<lfloor>a\<rfloor>"] bitlen_nonneg[of "\<lfloor>a\<rfloor>"] by linarith
  have i: "(2::int) ^ nat (bitlen \<lfloor>a\<rfloor> - 1) \<le> \<lfloor>a\<rfloor>" using bitlen_bounds[OF pos] by simp
  have "(2::rat) ^ nat (bitlen \<lfloor>a\<rfloor> - 1) = of_int (2 ^ nat (bitlen \<lfloor>a\<rfloor> - 1))" by simp
  also have "\<dots> \<le> of_int \<lfloor>a\<rfloor>" using i by (simp only: of_int_le_iff)
  also have "\<dots> \<le> a" by (rule of_int_floor_le)
  finally have "(2::rat) ^ nat (bitlen \<lfloor>a\<rfloor> - 1) \<le> a" .
  then show ?thesis using True b by (simp add: ilog2_def power_int_def)
next
  case False
  then have a1: "a < 1" by simp
  define k where "k = bitlen (\<lceil>1 / a\<rceil> - 1)"
  have "1 < 1 / a" using assms a1 by simp
  then have "2 \<le> \<lceil>1 / a\<rceil>" by (simp add: less_ceiling_iff) 
  then have pos: "0 < \<lceil>1 / a\<rceil> - 1" by simp
  have "\<lceil>1 / a\<rceil> - 1 < 2 ^ nat k" using bitlen_bounds[OF pos] by (simp add: k_def)
  then have i: "\<lceil>1 / a\<rceil> \<le> 2 ^ nat k" by simp
  have "1 / a \<le> of_int \<lceil>1 / a\<rceil>" by (rule le_of_int_ceiling)
  also have "\<dots> \<le> of_int (2 ^ nat k)" using i by (simp only: of_int_le_iff)
  also have "\<dots> = 2 ^ nat k" by simp
  finally have "1 / a \<le> 2 ^ nat k" .
  then have "1 \<le> 2 ^ nat k * a" using assms by (simp add: pos_divide_le_eq)
  then have "1 / 2 ^ nat k \<le> a" by (simp add: pos_divide_le_eq mult.commute)
  moreover have "0 \<le> k" by (simp add: k_def bitlen_nonneg)
  ultimately show ?thesis using False
    by (cases "k = 0") (simp_all add: ilog2_def k_def[symmetric] power_int_def inverse_eq_divide power_one_over)
qed


lemma quantum_form: "e \<le> 0 \<Longrightarrow> power_int (2::rat) e = 1 / 2 ^ nat (- e)"
  by (cases "e = 0") (simp_all add: power_int_def inverse_eq_divide power_one_over)

lemma round_scaled:
  assumes q: "q = 1 / 2 ^ m" and lo: "of_int k + q / 2 < a" and hi: "a \<le> of_int k + 1"
  shows "of_int k < of_int (round_half_even (a / q)) * q"
    and "of_int (round_half_even (a / q)) * q \<le> of_int k + 1"
proof -
  have qpos: "0 < q" using q by simp
  have scale: "of_int j / q = of_int (j * 2 ^ m)" for j :: int using q by simp
  have "of_int (k * 2 ^ m) + 1 / 2 < a / q"
  proof -
    have "(of_int k + q / 2) / q < a / q" using lo qpos by (simp add: divide_strict_right_mono)
    moreover have "(of_int k + q / 2) / q = of_int k / q + 1 / 2" using qpos by (simp add: add_divide_distrib)
    ultimately show ?thesis using scale[of k] by simp
  qed
  then have ge: "k * 2 ^ m + 1 \<le> round_half_even (a / q)" by (rule round_half_even_ge)
  have "a / q \<le> (of_int k + 1) / q" using hi qpos by (simp add: divide_right_mono)
  also have "\<dots> = of_int ((k + 1) * 2 ^ m)" using scale[of "k + 1"] by simp
  finally have le: "round_half_even (a / q) \<le> (k + 1) * 2 ^ m" by (rule round_half_even_le)
  have "of_int k = of_int (k * 2 ^ m) * q" using q by simp
  also have "\<dots> < of_int (k * 2 ^ m + 1) * q" using qpos by (simp add: mult_strict_right_mono)
  also have "\<dots> \<le> of_int (round_half_even (a / q)) * q"
  proof -
    have "(of_int (k * 2 ^ m + 1) :: rat) \<le> of_int (round_half_even (a / q))"
      using ge by (simp only: of_int_le_iff)
    then show ?thesis using qpos by (intro mult_right_mono) simp_all
  qed
  finally show "of_int k < of_int (round_half_even (a / q)) * q" .
  have "of_int (round_half_even (a / q)) * q \<le> of_int ((k + 1) * 2 ^ m) * q"
  proof -
    have "(of_int (round_half_even (a / q)) :: rat) \<le> of_int ((k + 1) * 2 ^ m)"
      using le by (simp only: of_int_le_iff)
    then show ?thesis using qpos by (intro mult_right_mono) simp_all
  qed
  also have "\<dots> = of_int k + 1" using q by simp
  finally show "of_int (round_half_even (a / q)) * q \<le> of_int k + 1" .
qed

lemma round_double_eq:
  assumes "x \<noteq> 0"
    and "power_int 2 (max (ilog2 \<bar>x\<bar> - 52) (- 1074)) = q"
    and "of_int (round_half_even (\<bar>x\<bar> / q)) * q = y"
    and "\<not> power_int 2 1024 \<le> y"
  shows "round_double x = Num (sgn x * y)"
  unfolding round_double_def Let_def assms(2) assms(3)
  using assms(1,4) by (simp only: if_False)

lemma round_double_of_int:
  assumes "0 < N" and "N < 2 ^ 53"
  shows "round_double (of_int N) = Num (of_int N)"
proof -
  have b: "bitlen N \<le> 53"
  proof -
    have "(2::int) ^ nat (bitlen N - 1) \<le> N" using bitlen_bounds[OF assms(1)] by simp
    then have "(2::int) ^ nat (bitlen N - 1) < 2 ^ 53" using assms(2) by simp
    then have "nat (bitlen N - 1) < 53" by (simp only: power_strict_increasing_iff)
    then show ?thesis by simp
  qed
  define e where "e = max (bitlen N - 1 - 52) (- 1074)"
  define m where "m = nat (- e)"
  have e: "e \<le> 0" using b by (simp add: e_def)
  have q: "power_int (2::rat) e = 1 / 2 ^ m" using e by (simp add: quantum_form m_def)
  have il: "ilog2 \<bar>of_int N\<bar> = bitlen N - 1" using assms(1) by (simp add: ilog2_def)
  have r: "round_half_even (\<bar>of_int N\<bar> / (1 / 2 ^ m)) = N * 2 ^ m"
  proof -
    have "\<bar>of_int N :: rat\<bar> / (1 / 2 ^ m) = of_int (N * 2 ^ m)" using assms(1) by simp
    then show ?thesis by (simp only: round_half_even_of_int)
  qed
  have small: "\<not> power_int (2::rat) 1024 \<le> of_int N"
  proof -
    have "(of_int N :: rat) < of_int (2 ^ 53)" using assms(2) by (simp only: of_int_less_iff)
    also have "\<dots> \<le> power_int 2 1024" by simp
    finally show ?thesis by simp
  qed
  have y: "of_int (round_half_even (\<bar>of_int N\<bar> / (1 / 2 ^ m))) * (1 / 2 ^ m) = (of_int N :: rat)"
    by (simp only: r) simp
  have "round_double (of_int N) = Num (sgn (of_int N) * of_int N)"
  proof (rule round_double_eq[where q = "1 / 2 ^ m"])
    show "(of_int N :: rat) \<noteq> 0" using assms(1) by simp
    show "power_int 2 (max (ilog2 \<bar>of_int N\<bar> - 52) (- 1074)) = (1 / 2 ^ m :: rat)"
      using q by (simp add: il e_def)
    show "of_int (round_half_even (\<bar>of_int N\<bar> / (1 / 2 ^ m))) * (1 / 2 ^ m) = (of_int N :: rat)"
      by (rule y)
    show "\<not> power_int (2::rat) 1024 \<le> of_int N" by (rule small)
  qed
  then show ?thesis using assms(1) by simp
qed


lemma ilog2_less:
  assumes "0 < a" and "a < power_int 2 n"
  shows "ilog2 a < n"
proof (rule ccontr)
  assume "\<not> ilog2 a < n"
  then have "power_int (2::rat) n \<le> power_int 2 (ilog2 a)"
    by (intro power_int_increasing) simp_all
  also have "\<dots> \<le> a" using assms(1) by (rule ilog2_lower)
  finally show False using assms(2) by simp
qed

lemma round_double_zero: "round_double 0 = Num 0"
  by (simp add: round_double_def)

lemma round_half_even_small:
  assumes "0 \<le> y" and "y < 1 / 2"
  shows "round_half_even y = 0"
proof -
  have "\<lfloor>y\<rfloor> = 0" using assms by (intro floor_unique) simp_all
  then show ?thesis using assms(2) by (simp add: round_half_even_def)
qed

lemma round_double_tiny:
  assumes "0 < x" and "x < power_int 2 (- 1075)"
  shows "round_double x = Num 0"
proof -
  have "ilog2 x < - 1075" using assms by (rule ilog2_less)
  then have e: "max (ilog2 \<bar>x\<bar> - 52) (- 1074) = - 1074" using assms(1) by simp
  have half: "x / power_int 2 (- 1074) < 1 / 2"
  proof -
    have "x / power_int 2 (- 1074) < power_int 2 (- 1075) / power_int 2 (- 1074)"
      using assms(2) by (intro divide_strict_right_mono) simp_all
    also have "\<dots> = 1 / 2" by (simp add: power_int_minus_divide)
    finally show ?thesis .
  qed
  have nonneg: "0 \<le> x / power_int 2 (- 1074)" using assms(1) by simp
  have "round_half_even (x / power_int 2 (- 1074)) = 0"
    using nonneg half by (rule round_half_even_small)
  then have r: "round_half_even (\<bar>x\<bar> / power_int 2 (- 1074)) = 0"
    using assms(1) by (simp only: abs_of_pos)
  have "round_double x = Num (sgn x * 0)"
  proof (rule round_double_eq[where q = "power_int 2 (- 1074)"])
    show "x \<noteq> 0" using assms(1) by simp
    show "power_int 2 (max (ilog2 \<bar>x\<bar> - 52) (- 1074)) = (power_int 2 (- 1074) :: rat)"
      by (simp only: e)
    show "of_int (round_half_even (\<bar>x\<bar> / power_int 2 (- 1074))) * power_int 2 (- 1074) = (0::rat)"
      by (simp only: r of_int_0 mult_zero_left)
    show "\<not> power_int (2::rat) 1024 \<le> 0" by simp
  qed
  then show ?thesis by simp
qed

lemma round_double_quotient:
  fixes d p :: nat
  assumes "0 < p" and "0 < d" and "d < 2 ^ 53" and "\<not> p dvd d" and "p < 2 ^ 53"
  shows "\<exists>r. round_double (of_nat d / of_nat p) = Num r
           \<and> of_int (int (d div p)) < r \<and> r \<le> of_int (int (d div p)) + 1"
proof -
  define x :: rat where "x = of_nat d / of_nat p"
  define k where "k = int (d div p)"
  define e where "e = max (ilog2 x - 52) (- 1074)"
  define m where "m = nat (- e)"
  define q :: rat where "q = 1 / 2 ^ m"
  have xpos: "0 < x" using assms(1,2) by (simp add: x_def)
  have xd: "x \<le> of_nat d"
  proof -
    have "(1::rat) \<le> of_nat p" using assms(1) by simp
    then have "of_nat d / of_nat p \<le> (of_nat d :: rat) / 1"
      by (intro divide_left_mono) simp_all
    then show ?thesis by (simp add: x_def)
  qed
  have d53: "(of_nat d :: rat) < 2 ^ 53"
  proof -
    have "(of_nat d :: rat) < of_nat (2 ^ 53)" using assms(3) by (simp only: of_nat_less_iff)
    then show ?thesis by simp
  qed
  have "x < power_int 2 53" using xd d53 by simp
  then have il: "ilog2 x < 53" using xpos by (intro ilog2_less)
  have e: "e \<le> 0" using il by (simp add: e_def)
  have qe: "power_int 2 e = q" using e by (simp add: quantum_form m_def q_def)
  have split: "x = of_int k + of_nat (d mod p) / of_nat p"
  proof -
    have "(of_nat d :: rat) = of_nat (d div p * p + d mod p)" by simp
    also have "\<dots> = of_nat (d div p) * of_nat p + of_nat (d mod p)"
      by (simp only: of_nat_add of_nat_mult)
    finally have "x = (of_nat (d div p) * of_nat p + of_nat (d mod p)) / of_nat p"
      by (simp add: x_def)
    then show ?thesis using assms(1) by (simp add: add_divide_distrib k_def)
  qed
  have rem1: "(1::rat) \<le> of_nat (d mod p)"
  proof -
    have "1 \<le> d mod p" using assms(4) by (simp add: dvd_eq_mod_eq_0 Suc_le_eq)
    then have "(of_nat 1 :: rat) \<le> of_nat (d mod p)" by (simp only: of_nat_le_iff)
    then show ?thesis by simp
  qed
  have remp: "(of_nat (d mod p) :: rat) \<le> of_nat p"
  proof -
    have "d mod p \<le> p" using assms(1) by (simp add: less_imp_le)
    then show ?thesis by (simp only: of_nat_le_iff)
  qed
  have frac: "of_int k + 1 / of_nat p \<le> x"
  proof -
    have "(1::rat) / of_nat p \<le> of_nat (d mod p) / of_nat p"
      using rem1 by (intro divide_right_mono) simp_all
    then show ?thesis by (simp add: split)
  qed
  have hi: "x \<le> of_int k + 1"
  proof -
    have "(of_nat (d mod p) :: rat) / of_nat p \<le> of_nat p / of_nat p"
      using remp by (intro divide_right_mono) simp_all
    then show ?thesis using assms(1) by (simp add: split)
  qed
  have qsmall: "q / 2 < 1 / of_nat p"
  proof (cases "ilog2 x - 52 \<le> - 1074")
    case True
    then have "e = - 1074" by (simp add: e_def)
    then have "q = power_int 2 (- 1074)" using qe by simp
    then have "q / 2 < 1 / 2 ^ 53" by (simp add: power_int_minus_divide)
    also have "\<dots> < 1 / of_nat p"
    proof -
      have "(of_nat p :: rat) < of_nat (2 ^ 53)" using assms(5) by (simp only: of_nat_less_iff)
      then have "(of_nat p :: rat) < 2 ^ 53" by simp
      then show ?thesis using assms(1) by (intro divide_strict_left_mono) simp_all
    qed
    finally show ?thesis .
  next
    case False
    then have "e = ilog2 x - 52" by (simp add: e_def)
    then have "q = power_int 2 (ilog2 x - 52)" using qe by simp
    also have "\<dots> = power_int 2 (ilog2 x) / 2 ^ 52"
      by (simp add: power_int_diff)
    also have "\<dots> \<le> x / 2 ^ 52"
      using ilog2_lower[OF xpos] by (intro divide_right_mono) simp_all
    finally have "q / 2 \<le> x / 2 ^ 53" by simp
    also have "\<dots> = (of_nat d / 2 ^ 53) / of_nat p" by (simp add: x_def)
    also have "\<dots> < 1 / of_nat p"
      using d53 assms(1) by (intro divide_strict_right_mono) simp_all
    finally show ?thesis .
  qed
  have lo: "of_int k + q / 2 < x" using qsmall frac by simp
  define y :: rat where "y = of_int (round_half_even (x / q)) * q"
  have y1: "of_int k < y" unfolding y_def using q_def lo hi by (rule round_scaled(1))
  have y2: "y \<le> of_int k + 1" unfolding y_def using q_def lo hi by (rule round_scaled(2))
  have kx: "of_int k \<le> x" using frac assms(1) by (simp add: split)
  have small: "\<not> power_int 2 1024 \<le> y"
  proof -
    have "y \<le> x + 1" using y2 kx by simp
    also have "\<dots> < 2 ^ 53 + 1" using xd d53 by simp
    also have "\<dots> \<le> power_int 2 1024" by simp
    finally show ?thesis by simp
  qed
  have "round_double x = Num (sgn x * y)"
  proof (rule round_double_eq[where q = q])
    show "x \<noteq> 0" using xpos by simp
    show "power_int 2 (max (ilog2 \<bar>x\<bar> - 52) (- 1074)) = q"
      using qe xpos by (simp add: e_def)
    show "of_int (round_half_even (\<bar>x\<bar> / q)) * q = y" using xpos by (simp add: y_def)
    show "\<not> power_int 2 1024 \<le> y" by (rule small)
  qed
  then have "round_double x = Num y" using xpos by simp
  then show ?thesis using y1 y2 unfolding x_def k_def by blast
qed


lemma ilog2_upper:
  assumes "0 < a"
  shows "a < power_int 2 (ilog2 a + 1)"
proof (cases "1 \<le> a")
  case True
  then have pos: "0 < \<lfloor>a\<rfloor>" by simp
  have b: "0 \<le> bitlen \<lfloor>a\<rfloor>" by (rule bitlen_nonneg)
  have "\<lfloor>a\<rfloor> + 1 \<le> 2 ^ nat (bitlen \<lfloor>a\<rfloor>)" using bitlen_bounds[OF pos] by simp
  then have "(of_int (\<lfloor>a\<rfloor> + 1) :: rat) \<le> of_int (2 ^ nat (bitlen \<lfloor>a\<rfloor>))"
    by (simp only: of_int_le_iff)
  then have "of_int \<lfloor>a\<rfloor> + 1 \<le> (2::rat) ^ nat (bitlen \<lfloor>a\<rfloor>)" by simp
  moreover have "a < of_int \<lfloor>a\<rfloor> + 1" by linarith
  ultimately have "a < (2::rat) ^ nat (bitlen \<lfloor>a\<rfloor>)" by simp
  then show ?thesis using True b by (simp add: ilog2_def power_int_def)
next
  case False
  define c where "c = \<lceil>1 / a\<rceil> - 1"
  have "1 < 1 / a" using False assms by simp
  then have c: "0 < c" unfolding c_def by linarith
  have ca: "of_int c < 1 / a" unfolding c_def by linarith
  have b: "1 \<le> bitlen c" using c bitlen_nonneg[of c] bitlen_eq_zero_iff[of c] by linarith
  have "(2::int) ^ nat (bitlen c - 1) \<le> c" using bitlen_bounds[OF c] by simp
  then have "(of_int (2 ^ nat (bitlen c - 1)) :: rat) \<le> of_int c" by (simp only: of_int_le_iff)
  then have "(of_int (2 ^ nat (bitlen c - 1)) :: rat) < 1 / a" using ca by (rule le_less_trans)
  then have "(2::rat) ^ nat (bitlen c - 1) < 1 / a" by simp
  then have "a * 2 ^ nat (bitlen c - 1) < 1" using assms by (simp add: pos_less_divide_eq mult.commute)
  then have "a < 1 / 2 ^ nat (bitlen c - 1)" by (simp add: pos_less_divide_eq)
  moreover have "power_int (2::rat) (ilog2 a + 1) = 1 / 2 ^ nat (bitlen c - 1)"
  proof -
    have "ilog2 a + 1 = - (bitlen c - 1)" using False by (simp add: ilog2_def c_def)
    moreover have "- (bitlen c - 1) \<le> 0" using b by simp
    ultimately show ?thesis by (simp add: quantum_form)
  qed
  ultimately show ?thesis by simp
qed

lemma ilog2_eq:
  assumes "power_int 2 k \<le> a" and "a < power_int 2 (k + 1)"
  shows "ilog2 a = k"
proof -
  have pos: "0 < a" by (rule less_le_trans[OF _ assms(1)]) simp
  have up: "ilog2 a < k + 1" using pos assms(2) by (rule ilog2_less)
  have "k < ilog2 a + 1"
  proof (rule ccontr)
    assume "\<not> k < ilog2 a + 1"
    then have "power_int (2::rat) (ilog2 a + 1) \<le> power_int 2 k"
      by (intro power_int_increasing) simp_all
    then show False using ilog2_upper[OF pos] assms(1) by simp
  qed
  then show ?thesis using up by simp
qed

lemma round_half_even_near:
  assumes "of_int k - 1 / 2 < y" and "y < of_int k + 1 / 2"
  shows "round_half_even y = k"
proof (cases "of_int k \<le> y")
  case True
  then have "\<lfloor>y\<rfloor> = k" using assms(2) by (intro floor_unique) simp_all
  then show ?thesis using assms(2) by (simp add: round_half_even_def)
next
  case False
  then have "\<lfloor>y\<rfloor> = k - 1" using assms(1) by (intro floor_unique) simp_all
  then show ?thesis using assms(1) by (simp add: round_half_even_def)
qed

lemma round_half_even_tie:
  "round_half_even (of_int k + 1 / 2) = (if even k then k else k + 1)"
proof -
  have "\<lfloor>of_int k + 1 / 2 :: rat\<rfloor> = k" by (intro floor_unique) simp_all
  then show ?thesis by (simp add: round_half_even_def)
qed

lemma quotient_2_53_by_3: "round_double (9007199254740992 / 3) = Num (6004799503160661 / 2)"
proof -
  have il: "ilog2 (9007199254740992 / 3) = 51" by (rule ilog2_eq) simp_all
  have r: "round_half_even (9007199254740992 / 3 / (1 / 2)) = 6004799503160661"
    by (rule round_half_even_near) simp_all
  have "round_double (9007199254740992 / 3) = Num (sgn (9007199254740992 / 3) * (6004799503160661 / 2))"
  proof (rule round_double_eq[where q = "1 / 2"])
    show "(9007199254740992 / 3 :: rat) \<noteq> 0" by simp
    show "power_int 2 (max (ilog2 \<bar>9007199254740992 / 3\<bar> - 52) (- 1074)) = (1 / 2 :: rat)"
      by (simp add: il)
    show "of_int (round_half_even (\<bar>9007199254740992 / 3\<bar> / (1 / 2))) * (1 / 2) = (6004799503160661 / 2 :: rat)"
      using r by simp
    show "\<not> power_int (2::rat) 1024 \<le> 6004799503160661 / 2" by simp
  qed
  then show ?thesis by simp
qed

lemma product_2_53_plus_1: "round_double 9007199254740993 = Num 9007199254740992"
proof -
  have il: "ilog2 9007199254740993 = 53" by (rule ilog2_eq) simp_all
  have "round_half_even (of_int 4503599627370496 + 1 / 2) = 4503599627370496"
    by (simp only: round_half_even_tie) simp
  then have r: "round_half_even (9007199254740993 / 2) = 4503599627370496" by simp
  have "round_double 9007199254740993 = Num (sgn 9007199254740993 * 9007199254740992)"
  proof (rule round_double_eq[where q = 2])
    show "(9007199254740993 :: rat) \<noteq> 0" by simp
    show "power_int 2 (max (ilog2 \<bar>9007199254740993\<bar> - 52) (- 1074)) = (2 :: rat)"
      by (simp add: il)
    show "of_int (round_half_even (\<bar>9007199254740993\<bar> / 2)) * 2 = (9007199254740992 :: rat)"
      using r by simp
    show "\<not> power_int (2::rat) 1024 \<le> 9007199254740992" by simp
  qed
  then show ?thesis by simp
qed


lemma chunkSize_truthy:
  "d \<noteq> Num 0 \<Longrightarrow> d \<noteq> NaN \<Longrightarrow>
   chunkSize (Some d) p = js_mul (Math_ceil (js_div d (Num (of_nat p)))) (Num (of_nat p))"
  by (simp add: chunkSize_def truthy_def)

lemma chunkSize_integers:
  fixes n p :: nat
  assumes "0 < n" and "0 < p" and "n + p \<le> 2 ^ 53"
  shows "chunkSize (Some (Num (of_nat n))) p =
           Num (of_nat ((if p dvd n then n div p else n div p + 1) * p))"
proof -
  have n53: "n < 2 ^ 53" and p53: "p < 2 ^ 53" using assms by simp_all
  have cs: "chunkSize (Some (Num (of_nat n))) p =
      js_mul (Math_ceil (round_double (of_nat n / of_nat p))) (Num (of_nat p))"
    using assms(1,2) by (simp add: chunkSize_def truthy_def)
  have product: "js_mul (Num (of_int (int k))) (Num (of_nat p)) = Num (of_nat (k * p))"
    if "0 < k" and "k * p < 2 ^ 53" for k
  proof -
    have "0 < int (k * p)" using that(1) assms(2) by simp
    moreover have "int (k * p) < 2 ^ 53"
    proof -
      have "int (k * p) < int (2 ^ 53)" using that(2) by (simp only: of_nat_less_iff)
      then show ?thesis by simp
    qed
    ultimately have "round_double (of_int (int (k * p))) = Num (of_int (int (k * p)))"
      by (rule round_double_of_int)
    then show ?thesis by simp
  qed
  show ?thesis
  proof (cases "p dvd n")
    case True
    then obtain k where k: "n = p * k" by (rule dvdE)
    have kpos: "0 < k" using assms(1) k by (cases "k = 0") simp_all
    have kn: "k \<le> n" using assms(2) k by simp
    have quot: "(of_nat n :: rat) / of_nat p = of_int (int k)" using assms(2) k by simp
    have "0 < int k" using kpos by simp
    moreover have "int k < 2 ^ 53"
    proof -
      have "int k < int (2 ^ 53)" using kn n53 by (simp only: of_nat_less_iff)
      then show ?thesis by simp
    qed
    ultimately have "round_double (of_int (int k)) = Num (of_int (int k))"
      by (rule round_double_of_int)
    then have "chunkSize (Some (Num (of_nat n))) p =
        js_mul (Num (of_int (int k))) (Num (of_nat p))"
      by (simp only: cs quot Math_ceil.simps ceiling_of_int)
    also have "\<dots> = Num (of_nat (k * p))"
      using kpos n53 k by (intro product) (simp_all add: mult.commute)
    finally show ?thesis using True k assms(2) by simp
  next
    case False
    from round_double_quotient[OF assms(2) assms(1) n53 False p53]
    obtain r where rd: "round_double (of_nat n / of_nat p) = Num r"
      and lo: "of_int (int (n div p)) < r" and hi: "r \<le> of_int (int (n div p)) + 1"
      by blast
    have ceil: "\<lceil>r\<rceil> = int (n div p + 1)"
      using lo hi by (intro ceiling_unique) simp_all
    have rem: "0 < n mod p" using False by (simp add: dvd_eq_mod_eq_0)
    have dm: "n div p * p + n mod p = n" by simp
    have "(n div p + 1) * p = n div p * p + p" by simp
    then have less: "(n div p + 1) * p < n + p" using rem dm by linarith
    then have small: "(n div p + 1) * p < 2 ^ 53" using assms(3) by simp
    have "chunkSize (Some (Num (of_nat n))) p =
        js_mul (Num (of_int (int (n div p + 1)))) (Num (of_nat p))"
      by (simp only: cs rd Math_ceil.simps ceil)
    also have "\<dots> = Num (of_nat ((n div p + 1) * p))"
      using small by (intro product) simp_all
    finally show ?thesis using False by simp
  qed
qed

lemma chunkSize_multiple:
  fixes n p :: nat
  assumes "0 < n" and "0 < p" and "n + p \<le> 2 ^ 53"
  shows "\<exists>k. chunkSize (Some (Num (of_nat n))) p = Num (of_nat (k * p)) \<and>
             n \<le> k * p \<and> k * p < n + p"
proof (cases "p dvd n")
  case True
  then have "n div p * p = n" by simp
  then show ?thesis
    using chunkSize_integers[OF assms] True assms(2)
    by (intro exI[of _ "n div p"]) simp
next
  case False
  then have rem: "0 < n mod p" by (simp add: dvd_eq_mod_eq_0)
  have eq: "(n div p + 1) * p + n mod p = n + p"
    by (simp add: algebra_simps)
  have "n mod p < p" using assms(2) by simp
  then have "n \<le> (n div p + 1) * p" "(n div p + 1) * p < n + p"
    using eq rem by linarith+
  then show ?thesis
    using chunkSize_integers[OF assms] False
    by (intro exI[of _ "n div p + 1"]) simp
qed

lemma chunkSize_100_64: "chunkSize (Some (Num 100)) 64 = Num 128"
  using chunkSize_integers[of 100 64] by simp

lemma chunkSize_2_53_3:
  "chunkSize (Some (Num 9007199254740992)) 3 = Num 9007199254740992"
proof -
  have "\<lceil>6004799503160661 / 2 :: rat\<rceil> = 3002399751580331"
    by (rule ceiling_unique) simp_all
  then show ?thesis
    using quotient_2_53_by_3 product_2_53_plus_1
    by (simp add: chunkSize_def truthy_def)
qed

lemma chunkSize_tiny: "chunkSize (Some (Num (1 / 2 ^ 1074))) 64 = Num 0"
proof -
  have "round_double (1 / 2 ^ 1074 / 64) = Num 0"
    by (rule round_double_tiny) (simp_all add: power_int_minus_divide)
  then show ?thesis
    by (simp add: chunkSize_def truthy_def round_double_zero)
qed

section \<open>Properties of the line-coding codec\<close>

lemma uint32_of_bytes_of_uint32:
  "uint32_of_bytes (ucast w) (ucast (drop_bit 8 w)) (ucast (drop_bit 16 w))
     (ucast (drop_bit 24 w)) = (w :: 32 word)"
  unfolding uint32_of_bytes_def
proof (rule bit_word_eqI)
  fix n assume n: "n < LENGTH(32)"
  consider "n < 8" | "8 \<le> n" "n < 16" | "16 \<le> n" "n < 24" | "24 \<le> n" "n < 32"
    using n by fastforce
  then show "bit (ucast (ucast w :: 8 word) OR
                  push_bit 8 (ucast (ucast (drop_bit 8 w) :: 8 word)) OR
                  push_bit 16 (ucast (ucast (drop_bit 16 w) :: 8 word)) OR
                  push_bit 24 (ucast (ucast (drop_bit 24 w) :: 8 word)) :: 32 word) n
             = bit w n"
    by cases (auto simp: bit_simps)
qed

lemma js_truncate_of_int: "js_truncate (of_int i) = i"
  by (simp add: js_truncate_def)

lemma js_truncate_of_nat: "js_truncate (of_nat n) = int n"
  by (simp add: js_truncate_def)

lemma number_of_word_of_nat32:
  "n < 2 ^ 32 \<Longrightarrow> number_of_word (of_nat n :: 32 word) = Num (of_nat n)"
  by (simp add: number_of_word_def unat_of_nat)

lemma number_of_word_of_nat8:
  "n < 2 ^ 8 \<Longrightarrow> number_of_word (of_nat n :: 8 word) = Num (of_nat n)"
  by (simp add: number_of_word_def unat_of_nat)

lemma stopbits_in_table:
  "s \<in> set kStopbitsIndexMapping \<Longrightarrow>
     0 \<le> indexOf strict_eq kStopbitsIndexMapping s \<and>
     indexOf strict_eq kStopbitsIndexMapping s < 3 \<and>
     kStopbitsIndexMapping ! nat (indexOf strict_eq kStopbitsIndexMapping s) = s"
  by (auto simp: kStopbitsIndexMapping_def indexOf_def strict_eq_def)

lemma parity_in_table:
  "p \<in> set kParityIndexMapping_legacy \<Longrightarrow>
     0 \<le> indexOf (=) kParityIndexMapping_legacy p \<and>
     indexOf (=) kParityIndexMapping_legacy p < 5 \<and>
     kParityIndexMapping_legacy ! nat (indexOf (=) kParityIndexMapping_legacy p) = p"
  by (auto simp: kParityIndexMapping_legacy_def indexOf_def)

lemma unat_index_byte: "0 \<le> i \<Longrightarrow> i < 256 \<Longrightarrow> unat (word_of_int i :: 8 word) = nat i"
  by (simp add: unat_eq_nat_uint uint_word_of_int)

text \<open>
  C1, as amended. The first generation's decoder gives back what its encoder was given:
  for options whose stop bits and parity are in the encoding tables, whose baud rate is
  an integer from 0 to 2^32 - 1 and whose data bits are an integer from 0 to 255,
  decoding the encoded buffer sets baud rate, stop bits, parity and data bits to the
  values of those options and leaves the other fields alone.
\<close>

theorem line_coding_round_trip:
  assumes "stopbits opts \<in> set kStopbitsIndexMapping"
    and "parity_legacy opts \<in> set kParityIndexMapping_legacy"
    and "baudrate opts = Num (of_nat b)" and "b < 2 ^ 32"
    and "databits opts = Num (of_nat d)" and "d < 2 ^ 8"
  shows "readLineCoding cur (getLineCodingStructure opts) =
           (Inr (cur\<lparr>baudrate := baudrate opts, stopbits := stopbits opts,
                     parity_legacy := parity_legacy opts, databits := databits opts\<rparr>),
            cur\<lparr>baudrate := baudrate opts, stopbits := stopbits opts,
                parity_legacy := parity_legacy opts, databits := databits opts\<rparr>)"
proof -
  let ?si = "indexOf strict_eq kStopbitsIndexMapping (stopbits opts)"
  let ?pi = "indexOf (=) kParityIndexMapping_legacy (parity_legacy opts)"
  have s: "unat (word_of_int ?si :: 8 word) = nat ?si" "nat ?si < 3"
      "kStopbitsIndexMapping ! nat ?si = stopbits opts"
    using stopbits_in_table[OF assms(1)] by (auto simp: unat_index_byte)
  have p: "unat (word_of_int ?pi :: 8 word) = nat ?pi" "nat ?pi < 5"
      "kParityIndexMapping_legacy ! nat ?pi = parity_legacy opts"
    using parity_in_table[OF assms(2)] by (auto simp: unat_index_byte)
  have l: "length kStopbitsIndexMapping = 3" "length kParityIndexMapping_legacy = 5"
    by (simp_all add: kStopbitsIndexMapping_def kParityIndexMapping_legacy_def)
  have g: "getUint8 (getLineCodingStructure opts) 4 = Inr (word_of_int ?si)"
      "getUint8 (getLineCodingStructure opts) 5 = Inr (word_of_int ?pi)"
      "getUint8 (getLineCodingStructure opts) 6 = Inr (of_nat d)"
      "getUint32 (getLineCodingStructure opts) 0 = Inr (of_nat b)"
    using assms(3,5)
    by (simp_all add: getLineCodingStructure_def getUint32_def getUint8_def
        js_truncate_of_int js_truncate_of_nat uint32_of_bytes_of_uint32 bytes_of_uint32_def)
  show ?thesis
    unfolding readLineCoding_def
    using assms(3-6) s p l g
    by (simp add: number_of_word_of_nat32 number_of_word_of_nat8 Let_def)
qed

theorem line_coding_round_trip_witness:
  "stopbits options_9600 \<in> set kStopbitsIndexMapping \<and>
   parity_legacy options_9600 \<in> set kParityIndexMapping_legacy \<and>
   baudrate options_9600 = Num (of_nat 9600) \<and> (9600 :: nat) < 2 ^ 32 \<and>
   databits options_9600 = Num (of_nat 8) \<and> (8 :: nat) < 2 ^ 8 \<and>
   readLineCoding options_9600 (getLineCodingStructure options_9600) =
     (Inr options_9600, options_9600)"
  using line_coding_round_trip [of options_9600 9600 8 options_9600]
  by (simp add: options_9600_def kStopbitsIndexMapping_def kParityIndexMapping_legacy_def)

text \<open>
  C1 as it is written fails: a baud rate of 2^32 is an integer, 1 stop bit and no parity
  are in the tables, and the buffer holds the baud rate modulo 2^32, so 0 comes back.
\<close>

theorem line_coding_round_trip_counterexample:
  "stopbits options_baud_2_32 \<in> set kStopbitsIndexMapping \<and>
   parity_legacy options_baud_2_32 \<in> set kParityIndexMapping_legacy \<and>
   readLineCoding options_baud_2_32 (getLineCodingStructure options_baud_2_32) =
     (Inr (options_baud_2_32\<lparr>baudrate := Num 0\<rparr>),
      options_baud_2_32\<lparr>baudrate := Num 0\<rparr>) \<and>
   baudrate options_baud_2_32 \<noteq> Num 0"
  by code_simp

text \<open>
  C9. A buffer of 7 bytes always decodes. A stop-bits byte at offset 4 that is not below
  the length of the stop-bits table decodes to 1 stop bit; a parity byte at offset 5 that
  is not below the length of the parity table decodes to no parity.
\<close>

theorem decode_robustness:
  assumes "length buffer = 7"
  shows "\<exists>options. readLineCoding cur buffer = (Inr options, options) \<and>
      (length kStopbitsIndexMapping \<le> unat (buffer ! 4) \<longrightarrow> stopbits options = Num 1) \<and>
      (length kParityIndexMapping_legacy \<le> unat (buffer ! 5) \<longrightarrow>
         parity_legacy options = ''none'')"
  using assms by (simp add: readLineCoding_def getUint32_def getUint8_def Let_def)

theorem decode_robustness_witness:
  "length buffer_out_of_table = 7 \<and>
   length kStopbitsIndexMapping \<le> unat (buffer_out_of_table ! 4) \<and>
   length kParityIndexMapping_legacy \<le> unat (buffer_out_of_table ! 5) \<and>
   (\<exists>options. readLineCoding options_9600 buffer_out_of_table = (Inr options, options) \<and>
      stopbits options = Num 1 \<and> parity_legacy options = ''none'')"
  using decode_robustness [of buffer_out_of_table options_9600]
  by (simp add: buffer_out_of_table_def kStopbitsIndexMapping_def
      kParityIndexMapping_legacy_def)

section \<open>Properties of the interface locator\<close>

lemma findInterface_loop_find:
  "\<forall>iface \<in> set ifs. alternates iface \<noteq> [] \<Longrightarrow>
   findInterface_loop ifs c =
     (case find (\<lambda>iface. interfaceClass (hd (alternates iface)) = c) ifs of
        None \<Rightarrow> Inl (InterfaceNotFound c) | Some iface \<Rightarrow> Inr iface)"
  by (induction ifs) (auto split: list.splits)

lemma findEndpoint_loop_find:
  "findEndpoint_loop n eps dir =
     (case find (\<lambda>e. direction e = dir) eps of
        None \<Rightarrow> Inl (EndpointNotFound n dir) | Some e \<Rightarrow> Inr e)"
  by (induction eps) auto

lemma find_app:
  "find P (xs @ ys) = (case find P xs of None \<Rightarrow> find P ys | Some x \<Rightarrow> Some x)"
  by (induction xs) auto

lemma fold_last_match:
  "fold (\<lambda>x found. if P x then Some x else found) xs acc =
     (case find P (rev xs) of None \<Rightarrow> acc | Some x \<Rightarrow> Some x)"
  by (induction xs arbitrary: acc) (auto simp: find_app split: option.splits)

lemma inner_fold_alternates:
  "fold (\<lambda>alternate found. if interfaceClass alternate = c then Some x else found) alts acc =
     (if \<exists>a \<in> set alts. interfaceClass a = c then Some x else acc)"
  by (induction alts arbitrary: acc) auto

lemma outer_fold_interfaces:
  "fold (\<lambda>deviceInterface interfaceWithClass.
            fold (\<lambda>alternate found.
                    if interfaceClass alternate = c then Some deviceInterface else found)
                 (alternates deviceInterface) interfaceWithClass) ifs acc =
     (case find (\<lambda>i. \<exists>a \<in> set (alternates i). interfaceClass a = c) (rev ifs) of
        None \<Rightarrow> acc | Some i \<Rightarrow> Some i)"
  by (simp only: inner_fold_alternates fold_last_match)

text \<open>
  C6, as amended. On a device with a first configuration whose interfaces all have an
  alternate setting, whether or not a configuration is selected, \<open>findInterface\<close>
  returns the first interface of that configuration, in declared order, whose first
  alternate setting declares the class, and fails with the not-found error when there
  is none. On an interface with an alternate setting, \<open>findEndpoint\<close> returns the
  first endpoint, in declared order, of the first alternate setting that has the
  direction, and fails with the not-found error when there is none. On a device with a
  selected configuration, the first generation's \<open>getInterfaceWithClass\<close> returns the
  last interface of that configuration that declares the class in any alternate
  setting, and \<open>undefined\<close> when there is none. (\<open>find\<close> is the first element of a
  list that satisfies a predicate.)
\<close>

theorem discovery_first_match:
  "(configurations device = config # others \<and>
    (\<forall>iface \<in> set (interfaces config). alternates iface \<noteq> []) \<longrightarrow>
      findInterface device c =
        (case find (\<lambda>iface. interfaceClass (hd (alternates iface)) = c) (interfaces config) of
           None \<Rightarrow> Inl (InterfaceNotFound c) | Some iface \<Rightarrow> Inr iface)) \<and>
   (alternates transfer = alternate # rest \<longrightarrow>
      findEndpoint transfer dir =
        (case find (\<lambda>e. direction e = dir) (endpoints alternate) of
           None \<Rightarrow> Inl (EndpointNotFound (interfaceNumber transfer) dir)
         | Some e \<Rightarrow> Inr e)) \<and>
   (configuration legacy_device = Some active \<longrightarrow>
      getInterfaceWithClass legacy_device c =
        Inr (find (\<lambda>iface. \<exists>a \<in> set (alternates iface). interfaceClass a = c)
               (rev (interfaces active))))"
  by (simp add: findInterface_def findEndpoint_def getInterfaceWithClass_def
      findInterface_loop_find findEndpoint_loop_find outer_fold_interfaces
      split: option.splits)

theorem discovery_first_match_witness:
  "configurations (cdc_device []) = cdc_configuration # [] \<and>
   list_all (\<lambda>iface. alternates iface \<noteq> []) (interfaces cdc_configuration) \<and>
   configuration (cdc_device []) = None \<and>
   alternates data_interface =
     \<lparr>interfaceClass = 10, endpoints = [endpoint_in, endpoint_out]\<rparr> # [] \<and>
   configuration dual_device = Some dual_configuration \<and>
   findInterface (cdc_device []) 10 = Inr data_interface \<and>
   findInterface (cdc_device []) 3 = Inl (InterfaceNotFound 3) \<and>
   findEndpoint data_interface Dir_out = Inr endpoint_out \<and>
   getInterfaceWithClass dual_device 2 = Inr (Some second_control_interface)"
proof -
  have tree: "configurations (cdc_device []) = cdc_configuration # []"
      "\<forall>iface \<in> set (interfaces cdc_configuration). alternates iface \<noteq> []"
      "configuration (cdc_device []) = None"
      "alternates data_interface =
         \<lparr>interfaceClass = 10, endpoints = [endpoint_in, endpoint_out]\<rparr> # []"
      "configuration dual_device = Some dual_configuration"
    by (simp_all add: cdc_device_def cdc_configuration_def control_interface_def
        data_interface_def dual_device_def)
  note first = discovery_first_match [where device = "cdc_device []"
      and config = cdc_configuration and others = "[]" and transfer = data_interface
      and alternate = "\<lparr>interfaceClass = 10, endpoints = [endpoint_in, endpoint_out]\<rparr>"
      and rest = "[]" and legacy_device = dual_device and active = dual_configuration
      and dir = Dir_out]
  from first [where c = 10] tree
  have data: "findInterface (cdc_device []) 10 = Inr data_interface"
    by (simp add: cdc_configuration_def control_interface_def data_interface_def)
  from first [where c = 3] tree
  have none: "findInterface (cdc_device []) 3 = Inl (InterfaceNotFound 3)"
    by (simp add: cdc_configuration_def control_interface_def data_interface_def)
  from first [where c = 2] tree
  have rest: "findEndpoint data_interface Dir_out = Inr endpoint_out"
      "getInterfaceWithClass dual_device 2 = Inr (Some second_control_interface)"
    by (simp_all add: dual_configuration_def data_interface_def control_interface_def
        second_control_interface_def second_data_interface_def endpoint_in_def
        endpoint_out_def)
  show ?thesis using tree data none rest by (simp add: list_all_iff)
qed

text \<open>
  C6 as it is written fails for the lookup of the first generation: on a device with
  two control interfaces it returns the second, while the first interface in declared
  order whose alternate setting declares class 2 is interface 0.
\<close>

theorem discovery_counterexample:
  "interfaces dual_configuration ! 0 = control_interface \<and>
   interfaceClass (hd (alternates control_interface)) = 2 \<and>
   getInterfaceWithClass dual_device 2 = Inr (Some second_control_interface) \<and>
   second_control_interface \<noteq> control_interface"
  by (simp add: dual_device_def dual_configuration_def data_interface_def
      control_interface_def second_control_interface_def second_data_interface_def
      getInterfaceWithClass_def)

section \<open>Properties of the control signals\<close>

lemma control_step:
  "\<exists>res reply. await (on_device (controlTransferOut r v i data)) (\<lambda>status. skip) this =
      (res, logged (Call_controlTransferOut r v i data) reply this)"
  by (cases "answer (Call_controlTransferOut r v i data) (this_device this)")
     (auto simp: await_def on_device_def controlTransferOut_def device_call_def skip_def
        logged_def)

lemma logged_simps:
  "calls (this_device (logged c r this)) = calls (this_device this) @ [(c, r)]"
  "this_outputSignals (logged c r this) = this_outputSignals this"
  "this_controlInterface (logged c r this) = this_controlInterface this"
  by (simp_all add: logged_def)

lemma spread_cases: "spread old new = (if new = Absent then old else new)"
  by (cases new) simp_all

lemma control_line_state_value:
  "control_line_state s =
     (if dataTerminalReady s = Val True then 1 else 0) +
     (if requestToSend s = Val True then 2 else 0)"
  by (simp add: control_line_state_def is_true_def)

lemma bitmap_bits:
  "bit ((if a then 1 else 0) + (if b then 2 else 0) :: 32 word) 0 = a"
  "bit ((if a then 1 else 0) + (if b then 2 else 0) :: 32 word) 1 = b"
  by (cases a; cases b; simp add: bit_simps)+

text \<open>
  C7. A call of \<open>setSignals\<close> that provides \<open>dataTerminalReady\<close> or \<open>requestToSend\<close>
  adds to the log of the device exactly one control transfer with request 0x22, on the
  control interface. The merged state of a signal is the value that the call provides
  for it and, when the call does not name the signal, the value that the port
  remembers; the port remembers the merged states afterwards. The value of the
  transfer has bit 0 set exactly when the merged DTR is \<open>true\<close>, bit 1 set exactly when
  the merged RTS is \<open>true\<close>, and no other bit: 1 for DTR plus 2 for RTS. On the sample
  port, which starts with all signals false: DTR true with RTS false sends 0x01, both
  true send 0x03, and DTR true followed by a call that provides only RTS true sends
  0x01 and then 0x03.
\<close>

theorem control_line_bitmap:
  assumes provided:
      "get (dataTerminalReady signals) \<noteq> None \<or> get (requestToSend signals) \<noteq> None"
    and run: "setSignals signals this = (result, this')"
  shows "(let dtr = (if dataTerminalReady signals = Absent
                     then dataTerminalReady (this_outputSignals this)
                     else dataTerminalReady signals);
              rts = (if requestToSend signals = Absent
                     then requestToSend (this_outputSignals this)
                     else requestToSend signals)
          in (\<exists>sent val.
                calls (this_device this') = calls (this_device this) @ sent \<and>
                requests_with kSetControlLineState sent =
                  [Call_controlTransferOut kSetControlLineState val
                     (interfaceNumber (this_controlInterface this)) None] \<and>
                bit val 0 = (dtr = Val True) \<and>
                bit val 1 = (rts = Val True) \<and>
                val = (if dtr = Val True then 1 else 0) + (if rts = Val True then 2 else 0)) \<and>
             dataTerminalReady (this_outputSignals this') = dtr \<and>
             requestToSend (this_outputSignals this') = rts) \<and>
         kSetControlLineState = 0x22 \<and>
         requests_with kSetControlLineState (calls (this_device (snd (setSignals
             \<lparr>dataTerminalReady = Val True, requestToSend = Val False, break = Absent\<rparr>
             (port_of (open_device [])))))) =
           [Call_controlTransferOut 0x22 0x01 0 None] \<and>
         requests_with kSetControlLineState (calls (this_device (snd (setSignals
             \<lparr>dataTerminalReady = Val True, requestToSend = Val True, break = Absent\<rparr>
             (port_of (open_device [])))))) =
           [Call_controlTransferOut 0x22 0x03 0 None] \<and>
         requests_with kSetControlLineState (calls (this_device (snd (setSignals
             \<lparr>dataTerminalReady = Absent, requestToSend = Val True, break = Absent\<rparr>
             (snd (setSignals
                \<lparr>dataTerminalReady = Val True, requestToSend = Absent, break = Absent\<rparr>
                (port_of (open_device [])))))))) =
           [Call_controlTransferOut 0x22 0x01 0 None, Call_controlTransferOut 0x22 0x03 0 None]"
proof -
  define dtr where "dtr = (if dataTerminalReady signals = Absent
      then dataTerminalReady (this_outputSignals this) else dataTerminalReady signals)"
  define rts where "rts = (if requestToSend signals = Absent
      then requestToSend (this_outputSignals this) else requestToSend signals)"
  define merged where "merged = merge_signals (this_outputSignals this) signals"
  define this1 where "this1 = this\<lparr>this_outputSignals := merged\<rparr>"
  define idx where "idx = interfaceNumber (this_controlInterface this)"
  define val :: "32 word" where
    "val = (if dtr = Val True then 1 else 0) + (if rts = Val True then 2 else 0)"
  define line where "line = Call_controlTransferOut kSetControlLineState val idx None"
  define brk where
    "brk = Call_controlTransferOut kSendBreak (if is_true (break merged) then 0xFFFF else 0)
             idx None"
  have fields: "dataTerminalReady merged = dtr" "requestToSend merged = rts"
    by (simp_all add: merged_def merge_signals_def spread_cases dtr_def rts_def)
  have state: "control_line_state merged = val"
    by (simp only: control_line_state_value fields val_def)
  obtain res1 reply1 where first:
    "await (on_device (controlTransferOut kSetControlLineState (control_line_state merged)
              idx None))
       (\<lambda>status. skip) this1 = (res1, logged line reply1 this1)"
    unfolding line_def state[symmetric] using control_step by blast
  obtain res2 reply2 where second:
    "await (on_device (controlTransferOut kSendBreak
              (if is_true (break merged) then 0xFFFF else 0) idx None))
       (\<lambda>status. skip) (logged line reply1 this1) =
         (res2, logged brk reply2 (logged line reply1 this1))"
    unfolding brk_def using control_step by blast
  have shape:
    "this' = logged line reply1 this1 \<or> this' = logged brk reply2 (logged line reply1 this1)"
    using run provided first second
    unfolding setSignals_def Let_def merged_def[symmetric] this1_def[symmetric]
    by (cases res1) (auto simp: await_def skip_def this1_def idx_def split: if_splits)
  have codes: "request_code line = Some kSetControlLineState"
      "request_code brk \<noteq> Some kSetControlLineState"
    by (simp_all add: line_def brk_def kSetControlLineState_def kSendBreak_def)
  have base: "calls (this_device this1) = calls (this_device this)"
      "this_outputSignals this1 = merged"
    by (simp_all add: this1_def)
  have sent: "\<exists>sent. calls (this_device this') = calls (this_device this) @ sent \<and>
           requests_with kSetControlLineState sent = [line]"
    using shape
  proof
    assume "this' = logged line reply1 this1"
    then show ?thesis
      using codes base
      by (intro exI[of _ "[(line, reply1)]"]) (simp add: logged_simps requests_with_def)
  next
    assume "this' = logged brk reply2 (logged line reply1 this1)"
    then show ?thesis
      using codes base
      by (intro exI[of _ "[(line, reply1), (brk, reply2)]"])
         (simp add: logged_simps requests_with_def)
  qed
  have remembered: "dataTerminalReady (this_outputSignals this') = dtr"
      "requestToSend (this_outputSignals this') = rts"
    using shape base fields by (auto simp: logged_simps)
  have bits: "bit val 0 = (dtr = Val True)" "bit val 1 = (rts = Val True)"
    unfolding val_def by (rule bitmap_bits)+
  have general: "(\<exists>sent v.
        calls (this_device this') = calls (this_device this) @ sent \<and>
        requests_with kSetControlLineState sent =
          [Call_controlTransferOut kSetControlLineState v
             (interfaceNumber (this_controlInterface this)) None] \<and>
        bit v 0 = (dtr = Val True) \<and> bit v 1 = (rts = Val True) \<and>
        v = (if dtr = Val True then 1 else 0) + (if rts = Val True then 2 else 0)) \<and>
      dataTerminalReady (this_outputSignals this') = dtr \<and>
      requestToSend (this_outputSignals this') = rts"
    using sent bits remembered unfolding line_def idx_def
    by (auto simp: val_def)
  have code: "kSetControlLineState = 0x22" by (simp add: kSetControlLineState_def)
  have sample1: "requests_with kSetControlLineState (calls (this_device (snd (setSignals
             \<lparr>dataTerminalReady = Val True, requestToSend = Val False, break = Absent\<rparr>
             (port_of (open_device [])))))) =
           [Call_controlTransferOut 0x22 0x01 0 None]"
    by code_simp
  have sample2: "requests_with kSetControlLineState (calls (this_device (snd (setSignals
             \<lparr>dataTerminalReady = Val True, requestToSend = Val True, break = Absent\<rparr>
             (port_of (open_device [])))))) =
           [Call_controlTransferOut 0x22 0x03 0 None]"
    by code_simp
  have sample3: "requests_with kSetControlLineState (calls (this_device (snd (setSignals
             \<lparr>dataTerminalReady = Absent, requestToSend = Val True, break = Absent\<rparr>
             (snd (setSignals
                \<lparr>dataTerminalReady = Val True, requestToSend = Absent, break = Absent\<rparr>
                (port_of (open_device [])))))))) =
           [Call_controlTransferOut 0x22 0x01 0 None, Call_controlTransferOut 0x22 0x03 0 None]"
    by code_simp
  show ?thesis
    unfolding Let_def dtr_def[symmetric] rts_def[symmetric]
    using general code sample1 sample2 sample3 by blast
qed

theorem control_line_bitmap_witness:
  "get (requestToSend
          \<lparr>dataTerminalReady = Absent, requestToSend = Val True, break = Absent\<rparr>) \<noteq> None \<and>
   dataTerminalReady (this_outputSignals (port_of (open_device []))
          \<lparr>dataTerminalReady := Val True\<rparr>) = Val True \<and>
   (\<exists>sent. calls (this_device (snd (setSignals
              \<lparr>dataTerminalReady = Absent, requestToSend = Val True, break = Absent\<rparr>
              ((port_of (open_device []))\<lparr>this_outputSignals :=
                 (this_outputSignals (port_of (open_device [])))
                   \<lparr>dataTerminalReady := Val True\<rparr>\<rparr>)))) = sent \<and>
      requests_with kSetControlLineState sent =
        [Call_controlTransferOut kSetControlLineState 0x03 0 None])"
proof -
  let ?signals = "\<lparr>dataTerminalReady = Absent, requestToSend = Val True, break = Absent\<rparr>"
  let ?port = "(port_of (open_device []))\<lparr>this_outputSignals :=
                 (this_outputSignals (port_of (open_device [])))
                   \<lparr>dataTerminalReady := Val True\<rparr>\<rparr>"
  have p: "get (dataTerminalReady ?signals) \<noteq> None \<or> get (requestToSend ?signals) \<noteq> None"
    by simp
  have r: "setSignals ?signals ?port =
             (fst (setSignals ?signals ?port), snd (setSignals ?signals ?port))"
    by simp
  have start: "calls (this_device ?port) = []"
      "dataTerminalReady (this_outputSignals ?port) = Val True"
      "interfaceNumber (this_controlInterface ?port) = 0"
    by (simp_all add: port_of_def open_device_def control_interface_def)
  from control_line_bitmap [OF p r] start
  show ?thesis by (auto simp: Let_def)
qed

section \<open>Properties of validation and line coding\<close>

lemma integral_floor_ceiling: "(of_int \<lceil>r\<rceil> = (r::rat)) = (of_int \<lfloor>r\<rfloor> = r)"
  by (metis ceiling_of_int floor_of_int)

lemma isValidBaudRate_integer: "isValidBaudRate b = is_integer b"
proof (cases b)
  case (Num r)
  then show ?thesis
    using integral_floor_ceiling[of r]
    by (auto simp: isValidBaudRate_def is_integer_def strict_eq_def js_truncate_def)
qed (simp_all add: isValidBaudRate_def is_integer_def strict_eq_def)

lemma validateOptions_iff:
  "(validateOptions (Some options) = Inr ()) =
     (is_integer (baudRate options) \<and>
      (get (dataBits options) = None \<or>
         List.member kAcceptableDataBits (the (get (dataBits options)))) \<and>
      (get (stopBits options) = None \<or>
         List.member kAcceptableStopBits (the (get (stopBits options)))) \<and>
      (get (parity options) = None \<or>
         List.member kAcceptableParity (the (get (parity options)))))"
  by (auto simp: validateOptions_def isValidBaudRate_integer isValidDataBits_def
      isValidStopBits_def isValidParity_def js_includes_def split: option.splits)




lemma lineCoding_length: "length (lineCoding options) = 7"
  by (simp add: lineCoding_def bytes_of_uint32_def)

lemma lineCoding_defaults:
  "get (stopBits options) = None \<Longrightarrow> lineCoding options ! 4 = 0"
  "get (parity options) = None \<Longrightarrow> lineCoding options ! 5 = 0"
  "get (dataBits options) = None \<Longrightarrow> lineCoding options ! 6 = 8"
  by (simp_all add: lineCoding_def bytes_of_uint32_def kDefaultStopBits_def kDefaultParity_def
      kDefaultDataBits_def kStopBitsIndexMapping_def kParityIndexMapping_def indexOf_def
      strict_eq_def js_truncate_def)

lemma setLineCoding_sends:
  "this_serialOptions this = Some options \<Longrightarrow>
   \<exists>res reply. setLineCoding this =
     (res, logged (Call_controlTransferOut kSetLineCoding 0
                     (interfaceNumber (this_controlInterface this)) (Some (lineCoding options)))
             reply this)"
  by (cases "answer (Call_controlTransferOut kSetLineCoding 0
                (interfaceNumber (this_controlInterface this)) (Some (lineCoding options)))
              (this_device this)")
     (auto simp: setLineCoding_def await_def on_device_def controlTransferOut_def
        device_call_def skip_def throw_def logged_def)

text \<open>
  C10. A line parameter that is absent (or \<open>undefined\<close>) is not constrained: validation
  passes exactly when the baud rate is an integer and each of data bits, stop bits and
  parity is absent or in its accepted set; with all three absent only the baud rate
  counts. The payload that \<open>setLineCoding\<close> sends has 7 bytes, and for an absent field
  it has the default: stop-bits code 0 at offset 4, parity code 0 at offset 5, data bits
  8 at offset 6.
\<close>

theorem absent_fields_default:
  "(validateOptions (Some options) = Inr ()) =
     (is_integer (baudRate options) \<and>
      (get (dataBits options) = None \<or>
         List.member kAcceptableDataBits (the (get (dataBits options)))) \<and>
      (get (stopBits options) = None \<or>
         List.member kAcceptableStopBits (the (get (stopBits options)))) \<and>
      (get (parity options) = None \<or>
         List.member kAcceptableParity (the (get (parity options))))) \<and>
   (get (dataBits options) = None \<and> get (stopBits options) = None \<and>
    get (parity options) = None \<longrightarrow>
      (validateOptions (Some options) = Inr ()) = is_integer (baudRate options)) \<and>
   length (lineCoding options) = 7 \<and>
   (get (stopBits options) = None \<longrightarrow> lineCoding options ! 4 = 0) \<and>
   (get (parity options) = None \<longrightarrow> lineCoding options ! 5 = 0) \<and>
   (get (dataBits options) = None \<longrightarrow> lineCoding options ! 6 = 8) \<and>
   (this_serialOptions this = Some options \<longrightarrow>
      (\<exists>res reply. setLineCoding this =
         (res, logged (Call_controlTransferOut kSetLineCoding 0
                         (interfaceNumber (this_controlInterface this))
                         (Some (lineCoding options)))
                 reply this)))"
  using validateOptions_iff[of options] lineCoding_length[of options]
    lineCoding_defaults[of options] setLineCoding_sends[of this options]
  by blast

theorem absent_fields_default_witness:
  "get (dataBits options_baud_only) = None \<and> get (stopBits options_baud_only) = None \<and>
   get (parity options_baud_only) = None \<and> is_integer (baudRate options_baud_only) \<and>
   this_serialOptions ((port_of (open_device []))\<lparr>this_serialOptions := Some options_baud_only\<rparr>)
     = Some options_baud_only \<and>
   validateOptions (Some options_baud_only) = Inr () \<and>
   lineCoding options_baud_only ! 4 = 0 \<and> lineCoding options_baud_only ! 5 = 0 \<and>
   lineCoding options_baud_only ! 6 = 8 \<and>
   (\<exists>res reply.
      setLineCoding ((port_of (open_device []))\<lparr>this_serialOptions := Some options_baud_only\<rparr>) =
        (res, logged (Call_controlTransferOut kSetLineCoding 0
                  (interfaceNumber (this_controlInterface
                     ((port_of (open_device []))\<lparr>this_serialOptions := Some options_baud_only\<rparr>)))
                  (Some (lineCoding options_baud_only)))
                reply
                ((port_of (open_device []))\<lparr>this_serialOptions := Some options_baud_only\<rparr>)))"
proof -
  have absent: "get (dataBits options_baud_only) = None" "get (stopBits options_baud_only) = None"
      "get (parity options_baud_only) = None"
    by (simp_all add: options_baud_only_def)
  have baud: "is_integer (baudRate options_baud_only)"
    by (simp add: options_baud_only_def is_integer_def)
  have stored:
    "this_serialOptions ((port_of (open_device []))\<lparr>this_serialOptions := Some options_baud_only\<rparr>)
       = Some options_baud_only"
    by simp
  from absent_fields_default [of options_baud_only
      "(port_of (open_device []))\<lparr>this_serialOptions := Some options_baud_only\<rparr>"]
    absent baud stored
  show ?thesis by blast
qed

section \<open>Properties of the stream adapters\<close>

lemma pull_requests:
  "pull onError endpoint (device, controller, env) = (device', controller', env') \<Longrightarrow>
   calls device' = calls device @
     [(Call_transferIn (endpointNumber endpoint)
         (chunkSize (desiredSize controller) (packetSize endpoint)),
       answer (Call_transferIn (endpointNumber endpoint)
         (chunkSize (desiredSize controller) (packetSize endpoint))) device)]"
  by (auto simp: pull_def transferIn_def device_call_def Let_def
      split: response.splits option.splits sum.splits if_splits prod.splits)


text \<open>
  C8, as amended. Every \<open>pull\<close> issues one inbound transfer, on the endpoint of the
  source, of the size that \<open>chunkSize\<close> computes from the desired size and the packet
  size. With no desired size (\<open>null\<close>), and with the desired size 0 or \<open>NaN\<close>, that is
  the packet size. With any other desired size \<open>d\<close> it is \<open>Math.ceil(d / p) * p\<close>
  as JavaScript computes it, the quotient and the product rounded to doubles. For an
  integer \<open>n > 0\<close> and a packet size \<open>p > 0\<close> with \<open>n + p \<le> 2^53\<close> nothing is lost
  in the rounding: the size is the multiple of \<open>p\<close> from \<open>n\<close> up to, not including,
  \<open>n + p\<close>. Desired size 100 with packet size 64 gives 128; no desired size gives 64.
  Beyond that range the size need not be a multiple of the packet size, nor reach the
  desired size: for \<open>2^53\<close> with packet size 3 it is \<open>2^53\<close> (the next multiple of 3
  is \<open>2^53 + 1\<close>), and for the smallest positive double, \<open>2^-1074\<close>, with packet size
  64 it is 0.
\<close>

theorem read_chunk_sizing:
  "(pull onError endpoint (device, controller, env) = (device', controller', env') \<longrightarrow>
      calls device' = calls device @
        [(Call_transferIn (endpointNumber endpoint)
            (chunkSize (desiredSize controller) (packetSize endpoint)),
          answer (Call_transferIn (endpointNumber endpoint)
            (chunkSize (desiredSize controller) (packetSize endpoint))) device)]) \<and>
   chunkSize None p = Num (of_nat p) \<and>
   chunkSize (Some (Num 0)) p = Num (of_nat p) \<and>
   chunkSize (Some NaN) p = Num (of_nat p) \<and>
   (d \<noteq> Num 0 \<and> d \<noteq> NaN \<longrightarrow>
      chunkSize (Some d) p = js_mul (Math_ceil (js_div d (Num (of_nat p)))) (Num (of_nat p))) \<and>
   (0 < n \<and> 0 < p \<and> n + p \<le> 2 ^ 53 \<longrightarrow>
      (\<exists>k. chunkSize (Some (Num (of_nat n))) p = Num (of_nat (k * p)) \<and>
           n \<le> k * p \<and> k * p < n + p)) \<and>
   chunkSize (Some (Num 100)) 64 = Num 128 \<and>
   chunkSize None 64 = Num 64 \<and>
   chunkSize (Some (Num 9007199254740992)) 3 = Num 9007199254740992 \<and>
   chunkSize (Some (Num (1 / 2 ^ 1074))) 64 = Num 0"
proof (intro conjI impI)
  assume "pull onError endpoint (device, controller, env) = (device', controller', env')"
  then show "calls device' = calls device @
        [(Call_transferIn (endpointNumber endpoint)
            (chunkSize (desiredSize controller) (packetSize endpoint)),
          answer (Call_transferIn (endpointNumber endpoint)
            (chunkSize (desiredSize controller) (packetSize endpoint))) device)]"
    by (rule pull_requests)
next
  show "chunkSize None p = Num (of_nat p)" by (simp add: chunkSize_def)
  show "chunkSize (Some (Num 0)) p = Num (of_nat p)" by (simp add: chunkSize_def truthy_def)
  show "chunkSize (Some NaN) p = Num (of_nat p)" by (simp add: chunkSize_def truthy_def)
next
  assume "d \<noteq> Num 0 \<and> d \<noteq> NaN"
  then show "chunkSize (Some d) p =
      js_mul (Math_ceil (js_div d (Num (of_nat p)))) (Num (of_nat p))"
    by (simp add: chunkSize_truthy)
next
  assume "0 < n \<and> 0 < p \<and> n + p \<le> 2 ^ 53"
  then show "\<exists>k. chunkSize (Some (Num (of_nat n))) p = Num (of_nat (k * p)) \<and>
           n \<le> k * p \<and> k * p < n + p"
    by (intro chunkSize_multiple) simp_all
next
  show "chunkSize (Some (Num 100)) 64 = Num 128" by (rule chunkSize_100_64)
  show "chunkSize None 64 = Num 64" by (simp add: chunkSize_def)
  show "chunkSize (Some (Num 9007199254740992)) 3 = Num 9007199254740992"
    by (rule chunkSize_2_53_3)
  show "chunkSize (Some (Num (1 / 2 ^ 1074))) 64 = Num 0" by (rule chunkSize_tiny)
qed

theorem read_chunk_sizing_witness:
  "(Num 100 \<noteq> Num 0 \<and> Num 100 \<noteq> NaN) \<and>
   ((0::nat) < 100 \<and> (0::nat) < 64 \<and> (100::nat) + 64 \<le> 2 ^ 53) \<and>
   chunkSize (Some (Num 100)) 64 =
     js_mul (Math_ceil (js_div (Num 100) (Num (of_nat 64)))) (Num (of_nat 64)) \<and>
   (\<exists>k. chunkSize (Some (Num (of_nat 100))) 64 = Num (of_nat (k * 64)) \<and>
        (100::nat) \<le> k * 64 \<and> k * 64 < 100 + 64) \<and>
   calls (fst (pull Suc endpoint_in
                 (open_device [], readable_controller (Some (Num 100)), 0 :: nat))) =
     [(Call_transferIn 1 (Num 128), Resolves Status_ok None)]"
proof -
  let ?start = "(open_device [], readable_controller (Some (Num 100)), 0 :: nat)"
  have run: "pull Suc endpoint_in ?start =
      (fst (pull Suc endpoint_in ?start), fst (snd (pull Suc endpoint_in ?start)),
       snd (snd (pull Suc endpoint_in ?start)))"
    by simp
  have start: "calls (open_device []) = []" "endpointNumber endpoint_in = 1"
      "packetSize endpoint_in = 64"
      "desiredSize (readable_controller (Some (Num 100))) = Some (Num 100)"
      "answer (Call_transferIn 1 (Num 128)) (open_device []) = Resolves Status_ok None"
    by (simp_all add: open_device_def endpoint_in_def readable_controller_def answer_def
        unknown_configuration_def)
  have hyps: "Num 100 \<noteq> Num 0 \<and> Num 100 \<noteq> NaN"
      "(0::nat) < 100 \<and> (0::nat) < 64 \<and> (100::nat) + 64 \<le> 2 ^ 53"
    by simp_all
  note sizing = read_chunk_sizing [of Suc endpoint_in "open_device []"
      "readable_controller (Some (Num 100))" 0 "fst (pull Suc endpoint_in ?start)"
      "fst (snd (pull Suc endpoint_in ?start))" "snd (snd (pull Suc endpoint_in ?start))" 64
      "Num 100" 100]
  from sizing run have log: "calls (fst (pull Suc endpoint_in ?start)) =
      calls (open_device []) @
        [(Call_transferIn (endpointNumber endpoint_in)
            (chunkSize (desiredSize (readable_controller (Some (Num 100))))
               (packetSize endpoint_in)),
          answer (Call_transferIn (endpointNumber endpoint_in)
            (chunkSize (desiredSize (readable_controller (Some (Num 100))))
               (packetSize endpoint_in))) (open_device []))]"
    by blast
  from sizing have size: "chunkSize (Some (Num 100)) 64 = Num 128"
    by blast
  from sizing hyps have formula: "chunkSize (Some (Num 100)) 64 =
      js_mul (Math_ceil (js_div (Num 100) (Num (of_nat 64)))) (Num (of_nat 64))"
    by blast
  from sizing hyps have multiple:
    "\<exists>k. chunkSize (Some (Num (of_nat 100))) 64 = Num (of_nat (k * 64)) \<and>
         (100::nat) \<le> k * 64 \<and> k * 64 < 100 + 64"
    by blast
  have call: "calls (fst (pull Suc endpoint_in ?start)) =
      [(Call_transferIn 1 (Num 128), Resolves Status_ok None)]"
    by (simp only: log start size append_Nil)
  show ?thesis using hyps formula multiple call by blast
qed

text \<open>
  C8 as it is written fails at the desired size 0, which the stream does signal (a
  pending read on a stream with high-water mark 0): \<open>ceil(0 / 64) * 64\<close> is 0, and the
  transfer asks for 64 bytes.
\<close>

theorem read_chunk_sizing_counterexample:
  "js_mul (Math_ceil (js_div (Num 0) (Num 64))) (Num 64) = Num 0 \<and>
   map fst (calls (fst (pull Suc endpoint_in
                          (open_device [], readable_controller (Some (Num 0)), 0 :: nat)))) =
     [Call_transferIn 1 (Num 64)]"
  by (simp add: round_double_zero pull_def transferIn_def device_call_def answer_def
      unknown_configuration_def open_device_def readable_controller_def endpoint_in_def
      chunkSize_def truthy_def)

text \<open>
  C4. When the inbound transfer of a \<open>pull\<close> is rejected or resolves with a status other
  than ok, nothing is added to what was enqueued, the error callback runs (once, or
  twice when the failed transfer carried data, since the refused \<open>enqueue\<close> lands in the
  \<open>catch\<close> clause), and a stream that was readable is errored; a stream that was not
  readable any more is left as it was.
\<close>

theorem failed_reads_deliver_nothing:
  assumes "pull onError endpoint (device, controller, env) = (device', controller', env')"
    and "transfer_failed (answer (Call_transferIn (endpointNumber endpoint)
           (chunkSize (desiredSize controller) (packetSize endpoint))) device)"
  shows "enqueued controller' = enqueued controller \<and>
         (env' = onError env \<or> env' = onError (onError env)) \<and>
         (readable_state controller = Active \<longrightarrow>
            (\<exists>e. readable_state controller' = Errored e)) \<and>
         (readable_state controller \<noteq> Active \<longrightarrow> controller' = controller)"
  using assms
  by (auto simp: pull_def transferIn_def device_call_def Let_def transfer_failed_def
      controller_error_def controller_enqueue_def
      split: response.splits option.splits sum.splits if_splits prod.splits)

theorem failed_reads_deliver_nothing_witness:
  "transfer_failed (answer (Call_transferIn (endpointNumber endpoint_in)
       (chunkSize (desiredSize (readable_controller (Some (Num 100)))) (packetSize endpoint_in)))
     (open_device [Resolves Status_babble (Some [1, 2, 3])])) \<and>
   readable_state (readable_controller (Some (Num 100))) = Active \<and>
   enqueued (fst (snd (pull Suc endpoint_in
       (open_device [Resolves Status_babble (Some [1, 2, 3])],
        readable_controller (Some (Num 100)), 0 :: nat)))) = [] \<and>
   (\<exists>e. readable_state (fst (snd (pull Suc endpoint_in
       (open_device [Resolves Status_babble (Some [1, 2, 3])],
        readable_controller (Some (Num 100)), 0 :: nat)))) = Errored e)"
proof -
  let ?device = "open_device [Resolves Status_babble (Some [1, 2, 3])]"
  let ?controller = "readable_controller (Some (Num 100))"
  let ?end = "pull Suc endpoint_in (?device, ?controller, 0 :: nat)"
  have run: "pull Suc endpoint_in (?device, ?controller, 0) =
      (fst ?end, fst (snd ?end), snd (snd ?end))"
    by simp
  have failed: "transfer_failed (answer (Call_transferIn (endpointNumber endpoint_in)
       (chunkSize (desiredSize ?controller) (packetSize endpoint_in))) ?device)"
    by (simp add: transfer_failed_def answer_def unknown_configuration_def open_device_def)
  have start: "readable_state ?controller = Active" "enqueued ?controller = []"
    by (simp_all add: readable_controller_def)
  from failed_reads_deliver_nothing [OF run failed] failed start
  show ?thesis by simp
qed


text \<open>
  C5, as amended. In the first generation, once the OUT endpoint is found, \<open>write\<close>
  throws a \<open>TypeError\<close> for every chunk that is not a \<open>Uint8Array\<close>, with the device
  and the controller untouched, and for a \<open>Uint8Array\<close> it issues one outbound transfer
  of the bytes and resolves, reporting a rejection of the transfer through
  \<open>controller.error\<close>; with no OUT endpoint it reports that and issues nothing. The sink
  of the current generation has no test of the chunk and never rejects: a
  \<open>Uint8Array\<close> and any other buffer source alike are handed to \<open>transferOut\<close>, one
  transfer of the bytes; when the transfer resolves with status ok nothing else
  happens, when it resolves with another status or is rejected the sink reports the
  status or the exception through \<open>controller.error\<close> and runs the error callback.
  For a value that is no buffer source, \<open>transferOut\<close> is rejected before anything is
  sent, and the sink reports that in the same way.
\<close>

theorem sink_chunk_type_guard:
  "(getDirectionEndpoint transferInterface Dir_out = Some out \<longrightarrow>
      (\<not> is_Uint8Array data \<longrightarrow>
         write_legacy transferInterface data (device, controller) =
           (Inl NotUint8Array, device, controller)) \<and>
      write_legacy transferInterface (Uint8Array bytes) (device, controller) =
        (let c = Call_transferOut (endpointNumber out) bytes; a = answer c device in
         (Inr (), device_logged c a device,
          (case a of
             Rejects m \<Rightarrow> sink_error (ErrorText (DeviceException m)) controller
           | Resolves status received \<Rightarrow> controller)))) \<and>
   (getDirectionEndpoint transferInterface Dir_out = None \<longrightarrow>
      write_legacy transferInterface data (device, controller) =
        (Inr (), device, sink_error (NoEndpoint Dir_out) controller)) \<and>
   sink_write onError endpoint (Uint8Array bytes) (device, sink, env) =
     (let c = Call_transferOut (endpointNumber endpoint) bytes; a = answer c device in
      (Inr (), device_logged c a device,
       (case a of
          Rejects m \<Rightarrow> sink_error (ErrorText (DeviceException m)) sink
        | Resolves status received \<Rightarrow>
            if status = Status_ok then sink else sink_error (StatusText status) sink),
       (if transfer_failed a then onError env else env))) \<and>
   sink_write onError endpoint (OtherBufferSource bytes) (device, sink, env) =
     sink_write onError endpoint (Uint8Array bytes) (device, sink, env) \<and>
   sink_write onError endpoint NotABuffer (device, sink, env) =
     (Inr (), device, sink_error (ErrorText (DeviceException ''TypeError'')) sink, onError env)"
  by (auto simp: write_legacy_def sink_write_def transferOut_def device_call_def
      device_logged_def is_Uint8Array_def transfer_failed_def Let_def
      split: option.splits chunk.splits response.splits prod.splits sum.splits if_splits)

theorem sink_chunk_type_guard_witness:
  "getDirectionEndpoint data_interface Dir_out = Some endpoint_out \<and>
   \<not> is_Uint8Array (OtherBufferSource [1, 2]) \<and>
   write_legacy data_interface (OtherBufferSource [1, 2])
       (open_device [Resolves Status_stall None], writable_controller) =
     (Inl NotUint8Array, open_device [Resolves Status_stall None], writable_controller) \<and>
   write_legacy data_interface (Uint8Array [1, 2])
       (open_device [Resolves Status_stall None], writable_controller) =
     (Inr (),
      device_logged (Call_transferOut 2 [1, 2]) (Resolves Status_stall None)
        (open_device [Resolves Status_stall None]),
      writable_controller) \<and>
   sink_write Suc endpoint_out (Uint8Array [1, 2])
       (open_device [Resolves Status_stall None], writable_controller, 0 :: nat) =
     (Inr (),
      device_logged (Call_transferOut 2 [1, 2]) (Resolves Status_stall None)
        (open_device [Resolves Status_stall None]),
      \<lparr>writable_state = Errored (StatusText Status_stall)\<rparr>, 1)"
proof -
  have facts: "getDirectionEndpoint data_interface Dir_out = Some endpoint_out"
      "\<not> is_Uint8Array (OtherBufferSource [1, 2])"
      "endpointNumber endpoint_out = 2"
      "answer (Call_transferOut 2 [1, 2]) (open_device [Resolves Status_stall None]) =
         Resolves Status_stall None"
      "sink_error (StatusText Status_stall) writable_controller =
         \<lparr>writable_state = Errored (StatusText Status_stall)\<rparr>"
      "transfer_failed (Resolves Status_stall None)"
    by (simp_all add: is_Uint8Array_def getDirectionEndpoint_def data_interface_def
        endpoint_in_def endpoint_out_def open_device_def answer_def unknown_configuration_def
        requires_open_def sink_error_def writable_controller_def transfer_failed_def)
  from sink_chunk_type_guard [where transferInterface = data_interface
      and out = endpoint_out and data = "OtherBufferSource [1, 2]" and bytes = "[1, 2]"
      and device = "open_device [Resolves Status_stall None]"
      and controller = writable_controller and endpoint = endpoint_out
      and sink = writable_controller and onError = Suc and env = "0 :: nat"]
    facts
  show ?thesis by (simp add: Let_def)
qed

text \<open>
  C5 as it is written fails for the sink of the current generation: an \<open>ArrayBuffer\<close> is
  not a \<open>Uint8Array\<close>, and \<open>write\<close> transfers it and resolves, with no error anywhere.
\<close>

theorem sink_chunk_type_guard_counterexample:
  "\<not> is_Uint8Array (OtherBufferSource [1, 2]) \<and>
   sink_write Suc endpoint_out (OtherBufferSource [1, 2])
       (open_device [], writable_controller, 0 :: nat) =
     (Inr (),
      (open_device [])\<lparr>calls := [(Call_transferOut 2 [1, 2], Resolves Status_ok None)]\<rparr>,
      writable_controller, 0)"
  by code_simp

section \<open>Properties of opening the port\<close>

lemma cleanup_outcome:
  assumes "open_cleanup thrown s = (r, s')"
  shows "(\<not> opened (this_device s) \<and> r = Inl (SetupError thrown) \<and> s' = s) \<or>
         (opened (this_device s) \<and>
            (\<exists>st data. r = Inl (SetupError thrown) \<and> \<not> opened (this_device s') \<and>
               claimed (this_device s') = [] \<and>
               calls (this_device s') =
                 calls (this_device s) @ [(Call_close, Resolves st data)])) \<or>
         (opened (this_device s) \<and>
            (\<exists>m. r = Inl (DeviceException m) \<and> opened (this_device s') \<and>
               calls (this_device s') = calls (this_device s) @ [(Call_close, Rejects m)]))"
  using assms
  by (cases "answer Call_close (this_device s)")
     (auto simp: open_cleanup_def await_def on_device_def device_close_def device_call_def
        skip_def throw_def split: if_splits)

lemma accounts_await:
  assumes "accounts m" and "\<And>a. accounts (k a)"
  shows "accounts (await m k)"
  unfolding accounts_def
proof (intro allI impI)
  fix s :: SerialPort
  assume s: "this_serialOptions s \<noteq> None"
  obtain r1 s1 where m: "m s = (r1, s1)" by (cases "m s")
  from assms(1)[unfolded accounts_def, rule_format, OF s] m
  obtain new1 where opts1: "this_serialOptions s1 \<noteq> None"
    and open1: "opened (this_device s) \<longrightarrow> opened (this_device s1)"
    and calls1: "calls (this_device s1) = calls (this_device s) @ new1"
    and out1: "case r1 of Inr a \<Rightarrow> \<not> list_ex failed_step new1
               | Inl e \<Rightarrow> new1 \<noteq> [] \<and> failed_step (last new1) \<and>
                   \<not> list_ex failed_step (butlast new1) \<and> e = error_of (last new1)"
    by auto
  show "this_serialOptions (snd (await m k s)) \<noteq> None \<and>
        (opened (this_device s) \<longrightarrow> opened (this_device (snd (await m k s)))) \<and>
        (\<exists>new. calls (this_device (snd (await m k s))) = calls (this_device s) @ new \<and>
           (case fst (await m k s) of
              Inr a \<Rightarrow> \<not> list_ex failed_step new
            | Inl e \<Rightarrow> new \<noteq> [] \<and> failed_step (last new) \<and>
                       \<not> list_ex failed_step (butlast new) \<and> e = error_of (last new)))"
  proof (cases r1)
    case (Inl e)
    then have "await m k s = (Inl e, s1)" using m by (simp add: await_def)
    then show ?thesis using opts1 open1 calls1 out1 Inl by auto
  next
    case (Inr a)
    then have aw: "await m k s = k a s1" using m by (simp add: await_def)
    from assms(2)[of a, unfolded accounts_def, rule_format, OF opts1]
    obtain new2 where opts2: "this_serialOptions (snd (k a s1)) \<noteq> None"
      and open2: "opened (this_device s1) \<longrightarrow> opened (this_device (snd (k a s1)))"
      and calls2: "calls (this_device (snd (k a s1))) = calls (this_device s1) @ new2"
      and out2: "case fst (k a s1) of Inr a \<Rightarrow> \<not> list_ex failed_step new2
               | Inl e \<Rightarrow> new2 \<noteq> [] \<and> failed_step (last new2) \<and>
                   \<not> list_ex failed_step (butlast new2) \<and> e = error_of (last new2)"
      by auto
    have clean1: "\<not> list_ex failed_step new1" using out1 Inr by simp
    have "case fst (k a s1) of Inr a \<Rightarrow> \<not> list_ex failed_step (new1 @ new2)
               | Inl e \<Rightarrow> new1 @ new2 \<noteq> [] \<and> failed_step (last (new1 @ new2)) \<and>
                   \<not> list_ex failed_step (butlast (new1 @ new2)) \<and>
                   e = error_of (last (new1 @ new2))"
      using out2 clean1
      by (cases "fst (k a s1)") (auto simp: butlast_append list_ex_iff)
    then show ?thesis
      unfolding aw using opts2 open1 open2 calls1 calls2
      by (intro conjI exI[of _ "new1 @ new2"]) simp_all
  qed
qed

lemma accounts_skip: "accounts skip"
  by (simp add: accounts_def skip_def)

lemma accounts_choice:
  assumes "accounts m" and "accounts n"
  shows "accounts (\<lambda>this. if c this then m this else n this)"
  using assms by (simp add: accounts_def)

lemma accounts_device_open: "accounts (on_device device_open)"
  unfolding accounts_def
proof (intro allI impI)
  fix s :: SerialPort
  show "this_serialOptions (snd (on_device device_open s)) \<noteq> None \<and>
        (opened (this_device s) \<longrightarrow> opened (this_device (snd (on_device device_open s)))) \<and>
        (\<exists>new. calls (this_device (snd (on_device device_open s))) =
                 calls (this_device s) @ new \<and>
           (case fst (on_device device_open s) of
              Inr a \<Rightarrow> \<not> list_ex failed_step new
            | Inl e \<Rightarrow> new \<noteq> [] \<and> failed_step (last new) \<and>
                       \<not> list_ex failed_step (butlast new) \<and> e = error_of (last new)))"
    if "this_serialOptions s \<noteq> None"
    using that
    by (cases "answer Call_open (this_device s)")
       (auto simp: on_device_def device_open_def device_call_def failed_step_def error_of_def
          intro!: exI[of _ "[(Call_open, answer Call_open (this_device s))]"])
qed

lemma accounts_selectConfiguration: "accounts (on_device (selectConfiguration n))"
  unfolding accounts_def
proof (intro allI impI)
  fix s :: SerialPort
  show "this_serialOptions (snd (on_device (selectConfiguration n) s)) \<noteq> None \<and>
        (opened (this_device s) \<longrightarrow>
           opened (this_device (snd (on_device (selectConfiguration n) s)))) \<and>
        (\<exists>new. calls (this_device (snd (on_device (selectConfiguration n) s))) =
                 calls (this_device s) @ new \<and>
           (case fst (on_device (selectConfiguration n) s) of
              Inr a \<Rightarrow> \<not> list_ex failed_step new
            | Inl e \<Rightarrow> new \<noteq> [] \<and> failed_step (last new) \<and>
                       \<not> list_ex failed_step (butlast new) \<and> e = error_of (last new)))"
    if "this_serialOptions s \<noteq> None"
    using that
    by (cases "answer (Call_selectConfiguration n) (this_device s)")
       (auto simp: on_device_def selectConfiguration_def device_call_def failed_step_def
          error_of_def
          intro!: exI[of _ "[(Call_selectConfiguration n,
                              answer (Call_selectConfiguration n) (this_device s))]"])
qed

lemma accounts_claimInterface: "accounts (on_device (claimInterface n))"
  unfolding accounts_def
proof (intro allI impI)
  fix s :: SerialPort
  show "this_serialOptions (snd (on_device (claimInterface n) s)) \<noteq> None \<and>
        (opened (this_device s) \<longrightarrow>
           opened (this_device (snd (on_device (claimInterface n) s)))) \<and>
        (\<exists>new. calls (this_device (snd (on_device (claimInterface n) s))) =
                 calls (this_device s) @ new \<and>
           (case fst (on_device (claimInterface n) s) of
              Inr a \<Rightarrow> \<not> list_ex failed_step new
            | Inl e \<Rightarrow> new \<noteq> [] \<and> failed_step (last new) \<and>
                       \<not> list_ex failed_step (butlast new) \<and> e = error_of (last new)))"
    if "this_serialOptions s \<noteq> None"
    using that
    by (cases "answer (Call_claimInterface n) (this_device s)")
       (auto simp: on_device_def claimInterface_def device_call_def failed_step_def
          error_of_def
          intro!: exI[of _ "[(Call_claimInterface n,
                              answer (Call_claimInterface n) (this_device s))]"])
qed

lemma accounts_claim_of:
  "accounts (\<lambda>this. on_device (claimInterface (f this)) this)"
  using accounts_claimInterface by (simp add: accounts_def)

lemma accounts_control:
  assumes "q \<noteq> kSetLineCoding"
  shows "accounts (await (on_device (controlTransferOut q v i data)) (\<lambda>status. skip))"
  unfolding accounts_def
proof (intro allI impI)
  fix s :: SerialPort
  let ?m = "await (on_device (controlTransferOut q v i data)) (\<lambda>status. skip)"
  show "this_serialOptions (snd (?m s)) \<noteq> None \<and>
        (opened (this_device s) \<longrightarrow> opened (this_device (snd (?m s)))) \<and>
        (\<exists>new. calls (this_device (snd (?m s))) = calls (this_device s) @ new \<and>
           (case fst (?m s) of
              Inr a \<Rightarrow> \<not> list_ex failed_step new
            | Inl e \<Rightarrow> new \<noteq> [] \<and> failed_step (last new) \<and>
                       \<not> list_ex failed_step (butlast new) \<and> e = error_of (last new)))"
    if "this_serialOptions s \<noteq> None"
    using that assms
    by (cases "answer (Call_controlTransferOut q v i data) (this_device s)")
       (auto simp: await_def skip_def on_device_def controlTransferOut_def device_call_def
          failed_step_def error_of_def
          intro!: exI[of _ "[(Call_controlTransferOut q v i data,
                              answer (Call_controlTransferOut q v i data) (this_device s))]"])
qed

lemma accounts_setLineCoding: "accounts setLineCoding"
  unfolding accounts_def
proof (intro allI impI)
  fix s :: SerialPort
  assume "this_serialOptions s \<noteq> None"
  then obtain options where options: "this_serialOptions s = Some options" by auto
  let ?c = "Call_controlTransferOut kSetLineCoding 0 (interfaceNumber (this_controlInterface s))
              (Some (lineCoding options))"
  show "this_serialOptions (snd (setLineCoding s)) \<noteq> None \<and>
        (opened (this_device s) \<longrightarrow> opened (this_device (snd (setLineCoding s)))) \<and>
        (\<exists>new. calls (this_device (snd (setLineCoding s))) = calls (this_device s) @ new \<and>
           (case fst (setLineCoding s) of
              Inr a \<Rightarrow> \<not> list_ex failed_step new
            | Inl e \<Rightarrow> new \<noteq> [] \<and> failed_step (last new) \<and>
                       \<not> list_ex failed_step (butlast new) \<and> e = error_of (last new)))"
    using options
    by (cases "answer ?c (this_device s)")
       (auto simp: setLineCoding_def await_def skip_def throw_def on_device_def
          controlTransferOut_def device_call_def failed_step_def error_of_def
          intro!: exI[of _ "[(?c, answer ?c (this_device s))]"])
qed

lemma accounts_setSignals: "accounts (setSignals signals)"
  unfolding accounts_def
proof (intro allI impI)
  fix s :: SerialPort
  assume opts: "this_serialOptions s \<noteq> None"
  define s1 where
    "s1 = s\<lparr>this_outputSignals := merge_signals (this_outputSignals s) signals\<rparr>"
  define M :: "unit async" where
    "M = await
        (if get (dataTerminalReady signals) \<noteq> None \<or> get (requestToSend signals) \<noteq> None
         then await (on_device (controlTransferOut kSetControlLineState
                                  (control_line_state (this_outputSignals s1))
                                  (interfaceNumber (this_controlInterface s1)) None))
                (\<lambda>status. skip)
         else skip)
        (\<lambda>u. if get (break signals) \<noteq> None
             then await (on_device (controlTransferOut kSendBreak
                                      (if is_true (break (this_outputSignals s1)) then 0xFFFF else 0)
                                      (interfaceNumber (this_controlInterface s1)) None))
                    (\<lambda>status. skip)
             else skip)"
  have run: "setSignals signals s = M s1"
    by (simp add: setSignals_def Let_def M_def s1_def)
  have codes: "kSetControlLineState \<noteq> kSetLineCoding" "kSendBreak \<noteq> kSetLineCoding"
    by (simp_all add: kSetControlLineState_def kSendBreak_def kSetLineCoding_def)
  have "accounts M"
    unfolding M_def
    by (intro accounts_await) (simp_all add: accounts_control codes accounts_skip)
  moreover have "this_serialOptions s1 \<noteq> None" using opts by (simp add: s1_def)
  ultimately have "this_serialOptions (snd (M s1)) \<noteq> None \<and>
        (opened (this_device s1) \<longrightarrow> opened (this_device (snd (M s1)))) \<and>
        (\<exists>new. calls (this_device (snd (M s1))) = calls (this_device s1) @ new \<and>
           (case fst (M s1) of
              Inr a \<Rightarrow> \<not> list_ex failed_step new
            | Inl e \<Rightarrow> new \<noteq> [] \<and> failed_step (last new) \<and>
                       \<not> list_ex failed_step (butlast new) \<and> e = error_of (last new)))"
    unfolding accounts_def by blast
  moreover have "this_device s1 = this_device s" by (simp add: s1_def)
  ultimately show "this_serialOptions (snd (setSignals signals s)) \<noteq> None \<and>
        (opened (this_device s) \<longrightarrow> opened (this_device (snd (setSignals signals s)))) \<and>
        (\<exists>new. calls (this_device (snd (setSignals signals s))) = calls (this_device s) @ new \<and>
           (case fst (setSignals signals s) of
              Inr a \<Rightarrow> \<not> list_ex failed_step new
            | Inl e \<Rightarrow> new \<noteq> [] \<and> failed_step (last new) \<and>
                       \<not> list_ex failed_step (butlast new) \<and> e = error_of (last new)))"
    unfolding run by simp
qed

lemma accounts_open_tail:
  "accounts
     (await (\<lambda>this. if configuration (this_device this) = None
                   then on_device (selectConfiguration 1) this else skip this) (\<lambda>u.
      await (\<lambda>this. on_device (claimInterface (interfaceNumber (this_controlInterface this)))
                     this) (\<lambda>u.
      await (\<lambda>this. if this_controlInterface this \<noteq> this_transferInterface this
                   then on_device (claimInterface (interfaceNumber (this_transferInterface this)))
                          this
                   else skip this) (\<lambda>u.
      await setLineCoding (\<lambda>u.
      setSignals \<lparr>dataTerminalReady = Val True, requestToSend = Absent, break = Absent\<rparr>)))))"
  by (intro accounts_await accounts_choice accounts_claim_of accounts_selectConfiguration
      accounts_skip accounts_setLineCoding accounts_setSignals)

lemma accounts_open_sequence: "accounts open_sequence"
  unfolding open_sequence_def
  by (intro accounts_await accounts_device_open accounts_open_tail)

lemma first_step:
  assumes k: "\<And>a. accounts (k a)"
    and opts: "this_serialOptions s \<noteq> None"
    and run: "await (on_device device_open) k s = (r, s')"
  shows "\<exists>a more. calls (this_device s') = calls (this_device s) @ (Call_open, a) # more"
    and "opened (this_device s') \<or>
         (\<not> opened (this_device s) \<and> claimed (this_device s') = claimed (this_device s) \<and>
          (\<exists>m. calls (this_device s') = calls (this_device s) @ [(Call_open, Rejects m)]))"
proof -
  define a where "a = answer Call_open (this_device s)"
  define s0 where "s0 = s\<lparr>this_device :=
      (this_device s)\<lparr>calls := calls (this_device s) @ [(Call_open, a)],
                         script := tl (script (this_device s))\<rparr>\<rparr>"
  have both: "(\<exists>a more. calls (this_device s') = calls (this_device s) @ (Call_open, a) # more) \<and>
      (opened (this_device s') \<or>
         (\<not> opened (this_device s) \<and> claimed (this_device s') = claimed (this_device s) \<and>
          (\<exists>m. calls (this_device s') = calls (this_device s) @ [(Call_open, Rejects m)])))"
  proof (cases a)
    case (Rejects m)
    then have "on_device device_open s = (Inl (DeviceException m), s0)"
      by (simp add: on_device_def device_open_def device_call_def a_def[symmetric] s0_def)
    then have "s' = s0" using run by (simp add: await_def)
    then show ?thesis using Rejects by (auto simp: s0_def)
  next
    case (Resolves st data)
    define s1 where "s1 = s0\<lparr>this_device := (this_device s0)\<lparr>opened := True\<rparr>\<rparr>"
    have "on_device device_open s = (Inr (), s1)"
      using Resolves
      by (simp add: on_device_def device_open_def device_call_def a_def[symmetric] s0_def
          s1_def)
    then have rest: "k () s1 = (r, s')" using run by (simp add: await_def)
    have "this_serialOptions s1 \<noteq> None" using opts by (simp add: s1_def s0_def)
    from k[of "()", unfolded accounts_def, rule_format, OF this] rest
    obtain new where "opened (this_device s1) \<longrightarrow> opened (this_device s')"
      and "calls (this_device s') = calls (this_device s1) @ new"
      by auto
    then show ?thesis by (auto simp: s1_def s0_def)
  qed
  from both show "\<exists>a more. calls (this_device s') = calls (this_device s) @ (Call_open, a) # more"
    by blast
  from both show "opened (this_device s') \<or>
         (\<not> opened (this_device s) \<and> claimed (this_device s') = claimed (this_device s) \<and>
          (\<exists>m. calls (this_device s') = calls (this_device s) @ [(Call_open, Rejects m)]))"
    by blast
qed

lemma open_sequence_first:
  assumes "this_serialOptions s \<noteq> None" and "open_sequence s = (r, s')"
  shows "\<exists>a more. calls (this_device s') = calls (this_device s) @ (Call_open, a) # more"
    and "opened (this_device s') \<or>
         (\<not> opened (this_device s) \<and> claimed (this_device s') = claimed (this_device s) \<and>
          (\<exists>m. calls (this_device s') = calls (this_device s) @ [(Call_open, Rejects m)]))"
  using assms(2) unfolding open_sequence_def
  by (rule first_step[OF accounts_open_tail assms(1)])+

text \<open>
  C2, as amended. \<open>open\<close> is called with options that pass validation, on a device
  that holds no claim while it is not open. A step of the sequence fails when its call
  is rejected, or when the line-coding transfer resolves with a status other than ok.
  If no step fails, \<open>open\<close> resolves. If one does, the sequence stops there: the calls
  of \<open>open\<close> are the steps before it, which did not fail, the failed one, and the
  closing. Either the failed step is \<open>open()\<close> itself on a device that was not open:
  nothing follows, and \<open>open\<close> rejects with the wrapped error of that step. Or
  \<open>close()\<close> follows and resolves: \<open>open\<close> rejects with the wrapped error of the
  failed step. In both cases the device is not open and holds no claimed interface.
  Or \<open>close()\<close> follows and is itself rejected: \<open>open\<close> rejects with the exception
  of \<open>close()\<close>, not wrapped, and the device is still open.
\<close>

theorem open_failure_closes:
  assumes valid: "validateOptions (Some options) = Inr ()"
    and clean: "no_stale_claims (this_device this)"
    and run: "open_port options this = (r, this')"
  shows "if list_ex failed_step
              (drop (length (calls (this_device this))) (calls (this_device this')))
         then (\<exists>steps entry closing.
                 drop (length (calls (this_device this))) (calls (this_device this')) =
                   steps @ entry # closing \<and>
                 \<not> list_ex failed_step steps \<and> failed_step entry \<and>
                 ((closing = [] \<and> steps = [] \<and> fst entry = Call_open \<and>
                   \<not> opened (this_device this) \<and>
                   r = Inl (SetupError (error_of entry)) \<and>
                   \<not> opened (this_device this') \<and> claimed (this_device this') = []) \<or>
                  (\<exists>st data. closing = [(Call_close, Resolves st data)] \<and>
                   r = Inl (SetupError (error_of entry)) \<and>
                   \<not> opened (this_device this') \<and> claimed (this_device this') = []) \<or>
                  (\<exists>m. closing = [(Call_close, Rejects m)] \<and>
                   r = Inl (DeviceException m) \<and> opened (this_device this'))))
         else r = Inr ()"
proof -
  define this1 where "this1 = this\<lparr>this_serialOptions := Some options\<rparr>"
  have opts: "this_serialOptions this1 \<noteq> None" by (simp add: this1_def)
  have base: "calls (this_device this1) = calls (this_device this)"
      "opened (this_device this1) = opened (this_device this)"
      "claimed (this_device this1) = claimed (this_device this)"
    by (simp_all add: this1_def)
  have whole: "try_catch open_sequence open_cleanup this1 = (r, this')"
    using run valid by (simp add: open_port_def Let_def this1_def)
  obtain r1 s1 where seq: "open_sequence this1 = (r1, s1)"
    by (cases "open_sequence this1")
  from accounts_open_sequence[unfolded accounts_def, rule_format, OF opts] seq
  obtain new where new: "calls (this_device s1) = calls (this_device this) @ new"
    and out: "case r1 of Inr a \<Rightarrow> \<not> list_ex failed_step new
              | Inl e \<Rightarrow> new \<noteq> [] \<and> failed_step (last new) \<and>
                  \<not> list_ex failed_step (butlast new) \<and> e = error_of (last new)"
    by (auto simp: base)
  show ?thesis
  proof (cases r1)
    case (Inr u)
    then have "r = Inr ()" "this' = s1" using whole seq by (simp_all add: try_catch_def)
    then show ?thesis using new out Inr by simp
  next
    case (Inl thrown)
    then have parts: "new \<noteq> []" "failed_step (last new)"
        "\<not> list_ex failed_step (butlast new)" "thrown = error_of (last new)"
      using out by simp_all
    have split: "new = butlast new @ [last new]" using parts(1) by simp
    have cleanup: "open_cleanup thrown s1 = (r, this')"
      using whole seq Inl by (simp add: try_catch_def)
    from open_sequence_first(2)[OF opts seq]
    have state: "opened (this_device s1) \<or>
         (\<not> opened (this_device this) \<and> claimed (this_device s1) = claimed (this_device this) \<and>
          (\<exists>m. new = [(Call_open, Rejects m)]))"
      using new by (simp add: base)
    from cleanup_outcome[OF cleanup]
    consider
      (never) "\<not> opened (this_device s1)" "r = Inl (SetupError thrown)" "this' = s1"
      | (closed) st data where "r = Inl (SetupError thrown)" "\<not> opened (this_device this')"
          "claimed (this_device this') = []"
          "calls (this_device this') = calls (this_device s1) @ [(Call_close, Resolves st data)]"
      | (stuck) m where "r = Inl (DeviceException m)" "opened (this_device this')"
          "calls (this_device this') = calls (this_device s1) @ [(Call_close, Rejects m)]"
      by blast
    then show ?thesis
    proof cases
      case never
      with state obtain m where only: "new = [(Call_open, Rejects m)]"
        and was: "\<not> opened (this_device this)"
        and same: "claimed (this_device s1) = claimed (this_device this)"
        by blast
      have log: "drop (length (calls (this_device this))) (calls (this_device this')) =
          [] @ (Call_open, Rejects m) # []"
        using never(3) new only by simp
      have none: "claimed (this_device this') = []"
        using clean was same never(3) by (simp add: no_stale_claims_def)
      have fails: "list_ex failed_step
          (drop (length (calls (this_device this))) (calls (this_device this')))"
        using log by (simp add: failed_step_def)
      have "\<exists>steps entry closing.
          drop (length (calls (this_device this))) (calls (this_device this')) =
            steps @ entry # closing \<and>
          \<not> list_ex failed_step steps \<and> failed_step entry \<and>
          (closing = [] \<and> steps = [] \<and> fst entry = Call_open \<and>
           \<not> opened (this_device this) \<and>
           r = Inl (SetupError (error_of entry)) \<and>
           \<not> opened (this_device this') \<and> claimed (this_device this') = [])"
        using log none was never parts(4) only
        by (intro exI[of _ "[]"] exI[of _ "(Call_open, Rejects m)"]) (simp add: failed_step_def)
      then show ?thesis using fails by (simp only: if_True) blast
    next
      case closed
      have log: "drop (length (calls (this_device this))) (calls (this_device this')) =
          butlast new @ last new # [(Call_close, Resolves st data)]"
        using closed(4) new split by (metis append.assoc append_Cons append_Nil
            append_eq_conv_conj)
      have fails: "list_ex failed_step
          (drop (length (calls (this_device this))) (calls (this_device this')))"
        using parts(2) by (simp only: log) (simp add: list_ex_iff)
      have "\<exists>steps entry closing.
          drop (length (calls (this_device this))) (calls (this_device this')) =
            steps @ entry # closing \<and>
          \<not> list_ex failed_step steps \<and> failed_step entry \<and>
          (\<exists>st data. closing = [(Call_close, Resolves st data)] \<and>
             r = Inl (SetupError (error_of entry)) \<and>
             \<not> opened (this_device this') \<and> claimed (this_device this') = [])"
        using log parts closed(1,2,3)
        by (intro exI[of _ "butlast new"] exI[of _ "last new"]
            exI[of _ "[(Call_close, Resolves st data)]"]) simp
      then show ?thesis using fails by (simp only: if_True) blast
    next
      case stuck
      have log: "drop (length (calls (this_device this))) (calls (this_device this')) =
          butlast new @ last new # [(Call_close, Rejects m)]"
        using stuck(3) new split by (metis append.assoc append_Cons append_Nil
            append_eq_conv_conj)
      have fails: "list_ex failed_step
          (drop (length (calls (this_device this))) (calls (this_device this')))"
        using parts(2) by (simp only: log) (simp add: list_ex_iff)
      have "\<exists>steps entry closing.
          drop (length (calls (this_device this))) (calls (this_device this')) =
            steps @ entry # closing \<and>
          \<not> list_ex failed_step steps \<and> failed_step entry \<and>
          (\<exists>m. closing = [(Call_close, Rejects m)] \<and>
             r = Inl (DeviceException m) \<and> opened (this_device this'))"
        using log parts stuck(1,2)
        by (intro exI[of _ "butlast new"] exI[of _ "last new"]
            exI[of _ "[(Call_close, Rejects m)]"]) simp
      then show ?thesis using fails by (simp only: if_True) blast
    qed
  qed
qed

theorem open_failure_closes_witness:
  "validateOptions (Some options_9600_8N1) = Inr () \<and>
   no_stale_claims (this_device (port_of (cdc_device
     [Resolves Status_ok None, Rejects ''NetworkError'']))) \<and>
   list_ex failed_step (calls (this_device (snd (open_port options_9600_8N1 (port_of (cdc_device
     [Resolves Status_ok None, Rejects ''NetworkError''])))))) \<and>
   fst (open_port options_9600_8N1 (port_of (cdc_device
     [Resolves Status_ok None, Rejects ''NetworkError'']))) =
     Inl (SetupError (DeviceException ''NetworkError'')) \<and>
   \<not> opened (this_device (snd (open_port options_9600_8N1 (port_of (cdc_device
     [Resolves Status_ok None, Rejects ''NetworkError''])))))  \<and>
   claimed (this_device (snd (open_port options_9600_8N1 (port_of (cdc_device
     [Resolves Status_ok None, Rejects ''NetworkError'']))))) = []"
proof -
  let ?port = "port_of (cdc_device [Resolves Status_ok None, Rejects ''NetworkError''])"
  have valid: "validateOptions (Some options_9600_8N1) = Inr ()"
    by code_simp
  have clean: "no_stale_claims (this_device ?port)"
    by (simp add: no_stale_claims_def port_of_def cdc_device_def)
  have first: "fst (open_port options_9600_8N1 ?port) =
      Inl (SetupError (DeviceException ''NetworkError''))"
    by code_simp
  have run: "open_port options_9600_8N1 ?port =
      (Inl (SetupError (DeviceException ''NetworkError'')), snd (open_port options_9600_8N1 ?port))"
    using first by (simp add: prod_eq_iff)
  have start: "calls (this_device ?port) = []"
    by (simp add: port_of_def cdc_device_def)
  have failed: "list_ex failed_step (calls (this_device (snd (open_port options_9600_8N1 ?port))))"
    by code_simp
  from open_failure_closes [OF valid clean run] failed start
  have "\<not> opened (this_device (snd (open_port options_9600_8N1 ?port))) \<and>
        claimed (this_device (snd (open_port options_9600_8N1 ?port))) = []"
    by auto
  then show ?thesis using valid clean failed first by blast
qed

text \<open>
  C2 as it is written fails when the cleanup fails too: the device opens, selecting the
  configuration is rejected, and so is the \<open>close\<close> in the \<open>catch\<close> clause. \<open>open\<close> then
  rejects with the exception of \<open>close\<close>, not wrapped, and the device stays open.
\<close>

theorem open_failure_counterexample:
  "validateOptions (Some options_9600_8N1) = Inr () \<and>
   fst (open_port options_9600_8N1 (port_of (cdc_device
     [Resolves Status_ok None, Rejects ''NetworkError'', Rejects ''NotFoundError'']))) =
     Inl (DeviceException ''NotFoundError'') \<and>
   opened (this_device (snd (open_port options_9600_8N1 (port_of (cdc_device
     [Resolves Status_ok None, Rejects ''NetworkError'', Rejects ''NotFoundError''])))))  \<and>
   map fst (calls (this_device (snd (open_port options_9600_8N1 (port_of (cdc_device
     [Resolves Status_ok None, Rejects ''NetworkError'', Rejects ''NotFoundError'']))))))
     = [Call_open, Call_selectConfiguration 1, Call_close]"
  by code_simp

text \<open>
  The sequence of a successful \<open>open\<close> on the sample device, as the specification gives
  it: line coding \<open>[0x80, 0x25, 0, 0, 0, 0, 8]\<close>, then control line state 0x01.
\<close>

lemma open_port_end_to_end:
  "fst (open_port options_9600_8N1 (port_of (cdc_device []))) = Inr () \<and>
   map fst (calls (this_device (snd (open_port options_9600_8N1 (port_of (cdc_device []))))))
     = [Call_open, Call_selectConfiguration 1, Call_claimInterface 0, Call_claimInterface 1,
        Call_controlTransferOut 0x20 0 0 (Some [0x80, 0x25, 0, 0, 0, 0, 8]),
        Call_controlTransferOut 0x22 0x01 0 None]"
  by code_simp

lemma constructor_sample:
  "SerialPort_constructor (cdc_device []) 2 10 = Inr (port_of (cdc_device []))"
  by code_simp

section \<open>Properties of validation in open and reconfigure\<close>





end
